theory Spec2Isabelle
  imports Main
begin

section \<open>ToothLit: a per-domain dark-mode toggle\<close>

text \<open>
  The extension has two scripts. \<^verbatim>\<open>background.js\<close> runs in the privileged background
  context: it resolves the domain of a tab, keeps one boolean per domain in
  \<^verbatim>\<open>browser.storage.local\<close>, sets the toolbar icon and notifies the page. The content
  script runs in every page: it applies or removes the dark-mode override.

  The embedding follows the scripts function by function. Everything the scripts ask of
  the browser (\<^verbatim>\<open>browser.storage.local\<close>, \<^verbatim>\<open>browser.action.setIcon\<close>,
  \<^verbatim>\<open>browser.scripting.executeScript\<close>, \<^verbatim>\<open>console.error\<close>) is an operation on an explicit
  state, the \<open>world\<close>. A promise that settles is an \<open>outcome\<close>: fulfilled with a value or
  rejected, so every \<^verbatim>\<open>try\<close>/\<^verbatim>\<open>catch\<close> of the source is a branch of the model. A handler
  is followed from its start to its end: no other handler runs between its awaits.
\<close>

subsection \<open>JavaScript values and plain objects\<close>

text \<open>
  \<^verbatim>\<open>allDomains[domain]\<close> is a property read on a plain object, so it looks at the object's
  own properties first and then at \<^verbatim>\<open>Object.prototype\<close>. The own properties of the settings
  object are booleans (the only writer is \<^verbatim>\<open>setDomainState\<close>, which stores \<^verbatim>\<open>!currentState\<close>).
  A read that finds nothing is \<^verbatim>\<open>undefined\<close>; a read that finds a member of
  \<^verbatim>\<open>Object.prototype\<close> yields that member, a function or an object, hence a truthy value.
\<close>

datatype jsval = JUndefined | JBool bool | JInherited string

fun truthy :: "jsval \<Rightarrow> bool" where
  "truthy JUndefined = False"
| "truthy (JBool b) = b"
| "truthy (JInherited k) = True"

type_synonym jsobject = "string \<rightharpoonup> bool"

definition Object_prototype_keys :: "string list" where
  "Object_prototype_keys =
     [''constructor'', ''hasOwnProperty'', ''isPrototypeOf'', ''propertyIsEnumerable'',
      ''toLocaleString'', ''toString'', ''valueOf'', ''__proto__'',
      ''__defineGetter__'', ''__defineSetter__'', ''__lookupGetter__'', ''__lookupSetter__'']"

definition js_get :: "jsobject \<Rightarrow> string \<Rightarrow> jsval" where
  "js_get obj k =
     (case obj k of
        Some b \<Rightarrow> JBool b
      | None \<Rightarrow> if k \<in> set Object_prototype_keys then JInherited k else JUndefined)"

text \<open>
  \<^verbatim>\<open>obj[k] = b\<close> creates or overwrites an own property, except for the key
  \<^verbatim>\<open>__proto__\<close> on an object that has no own property of that name: the assignment then
  reaches the setter inherited from \<^verbatim>\<open>Object.prototype\<close>, which ignores a value that is
  neither an object nor \<^verbatim>\<open>null\<close>.
\<close>

definition js_put :: "jsobject \<Rightarrow> string \<Rightarrow> bool \<Rightarrow> jsobject" where
  "js_put obj k b = (if k = ''__proto__'' \<and> obj k = None then obj else obj(k \<mapsto> b))"

subsection \<open>The browser as seen from the background context\<close>

datatype 'a outcome = Fulfilled 'a | Rejected

text \<open>
  The source of a message event is the window of the page itself or anything else
  (another window, a frame, \<^verbatim>\<open>null\<close>). The data of the event, as far as the listener
  looks at it, is a falsy value, or a value with what its \<^verbatim>\<open>.source\<close> and \<^verbatim>\<open>.action\<close>
  properties evaluate to: a string or something that is not a string (\<^verbatim>\<open>undefined\<close>
  included).
\<close>

datatype window_ref = OwnWindow | OtherWindow

datatype js_field = JStr string | JNotString

datatype js_data = FalsyData | Data js_field js_field

record message_event =
  ev_source :: window_ref
  ev_data :: js_data

datatype host_call =
    StorageGet string
  | StorageSet "string \<rightharpoonup> jsobject"
  | SetIcon nat "(string \<times> string) list"
  | ExecuteScript nat bool

text \<open>
  \<open>storage\<close> is the extension's local storage area, whose values are settings objects;
  \<open>icons\<close> the toolbar icon of each tab; \<open>mailbox\<close> the message events queued on the
  window of each tab; \<open>console\<close> the lines written by \<^verbatim>\<open>console.error\<close>, each without the
  exception and the tab id that the source appends; \<open>calls\<close> the browser calls made so
  far, in order. \<open>faults\<close> decides which of the coming browser calls are rejected: each
  call takes the head of the list (an empty list means the call succeeds), so any
  pattern of failures is some world.
\<close>

record world =
  storage :: "string \<rightharpoonup> jsobject"
  icons :: "nat \<rightharpoonup> (string \<times> string) list"
  mailbox :: "nat \<Rightarrow> message_event list"
  console :: "string list"
  calls :: "host_call list"
  faults :: "bool list"

definition take_fault :: "world \<Rightarrow> bool \<times> world" where
  "take_fault w = (case faults w of [] \<Rightarrow> (False, w) | f # fs \<Rightarrow> (f, w\<lparr>faults := fs\<rparr>))"

definition console_error :: "string \<Rightarrow> world \<Rightarrow> world" where
  "console_error msg w = w\<lparr>console := console w @ [msg]\<rparr>"

definition storage_local_get :: "string \<Rightarrow> world \<Rightarrow> (string \<rightharpoonup> jsobject) outcome \<times> world" where
  "storage_local_get key w =
     (case take_fault (w\<lparr>calls := calls w @ [StorageGet key]\<rparr>) of
        (True, w1) \<Rightarrow> (Rejected, w1)
      | (False, w1) \<Rightarrow> (Fulfilled (storage w1 |` {key}), w1))"

definition storage_local_set :: "(string \<rightharpoonup> jsobject) \<Rightarrow> world \<Rightarrow> unit outcome \<times> world" where
  "storage_local_set items w =
     (case take_fault (w\<lparr>calls := calls w @ [StorageSet items]\<rparr>) of
        (True, w1) \<Rightarrow> (Rejected, w1)
      | (False, w1) \<Rightarrow> (Fulfilled (), w1\<lparr>storage := storage w1 ++ items\<rparr>))"

definition action_setIcon :: "nat \<Rightarrow> (string \<times> string) list \<Rightarrow> world \<Rightarrow> unit outcome \<times> world" where
  "action_setIcon tabId path w =
     (case take_fault (w\<lparr>calls := calls w @ [SetIcon tabId path]\<rparr>) of
        (True, w1) \<Rightarrow> (Rejected, w1)
      | (False, w1) \<Rightarrow> (Fulfilled (), w1\<lparr>icons := (icons w1)(tabId \<mapsto> path)\<rparr>))"

text \<open>
  The function injected by the click handler posts one message on the page's own window,
  so the event it causes has that window as its source.
\<close>

definition injected_message :: "bool \<Rightarrow> message_event" where
  "injected_message isDark =
     \<lparr>ev_source = OwnWindow,
      ev_data = Data (JStr ''toothlit-background'')
                     (JStr (if isDark then ''enableDarkMode'' else ''disableDarkMode''))\<rparr>"

definition scripting_executeScript :: "nat \<Rightarrow> bool \<Rightarrow> world \<Rightarrow> unit outcome \<times> world" where
  "scripting_executeScript tabId isDark w =
     (case take_fault (w\<lparr>calls := calls w @ [ExecuteScript tabId isDark]\<rparr>) of
        (True, w1) \<Rightarrow> (Rejected, w1)
      | (False, w1) \<Rightarrow>
          (Fulfilled (),
           w1\<lparr>mailbox := (mailbox w1)(tabId := mailbox w1 tabId @ [injected_message isDark])\<rparr>))"

text \<open>
  \<^verbatim>\<open>await\<close> inside an async function: a rejection leaves the function at once; and
  \<^verbatim>\<open>try\<close>/\<^verbatim>\<open>catch\<close> around an awaited body.
\<close>

definition await :: "'a outcome \<times> world \<Rightarrow> ('a \<Rightarrow> world \<Rightarrow> 'b outcome \<times> world) \<Rightarrow> 'b outcome \<times> world" where
  "await r k = (case r of (Fulfilled v, w) \<Rightarrow> k v w | (Rejected, w) \<Rightarrow> (Rejected, w))"

definition try_catch :: "'a outcome \<times> world \<Rightarrow> (world \<Rightarrow> 'a outcome \<times> world) \<Rightarrow> 'a outcome \<times> world" where
  "try_catch r handler = (case r of (Fulfilled v, w) \<Rightarrow> (Fulfilled v, w) | (Rejected, w) \<Rightarrow> handler w)"

subsection \<open>background.js: the preference store\<close>

definition SETTINGS_KEY :: string where
  "SETTINGS_KEY = ''toothlit_settings''"

text \<open>\<^verbatim>\<open>settings[SETTINGS_KEY] || {}\<close>: an object is truthy, an absent key gives the empty object.\<close>

definition allDomains_of :: "(string \<rightharpoonup> jsobject) \<Rightarrow> jsobject" where
  "allDomains_of settings = (case settings SETTINGS_KEY of Some obj \<Rightarrow> obj | None \<Rightarrow> Map.empty)"

definition getDomainState :: "string \<Rightarrow> world \<Rightarrow> jsval outcome \<times> world" where
  "getDomainState domain w =
     try_catch
       (await (storage_local_get SETTINGS_KEY w) (\<lambda>settings w1.
          let allDomains = allDomains_of settings;
              v = js_get allDomains domain
          in (Fulfilled (if truthy v then v else JBool False), w1)))
       (\<lambda>w1. (Fulfilled (JBool False), console_error ''ToothLit: Error getting domain state'' w1))"

definition setDomainState :: "string \<Rightarrow> bool \<Rightarrow> world \<Rightarrow> unit outcome \<times> world" where
  "setDomainState domain isEnabled w =
     try_catch
       (await (storage_local_get SETTINGS_KEY w) (\<lambda>settings w1.
          let allDomains = js_put (allDomains_of settings) domain isEnabled
          in storage_local_set [SETTINGS_KEY \<mapsto> allDomains] w1))
       (\<lambda>w1. (Fulfilled (), console_error ''ToothLit: Error setting domain state'' w1))"

subsection \<open>The platform's URL parser\<close>

text \<open>
  \<^verbatim>\<open>new URL(url)\<close> is the browser's parser, not code of the extension, so the functions
  below take it as a parameter \<open>URL_new\<close>: it returns the parsed URL, of which the code
  reads the \<^verbatim>\<open>hostname\<close> only, or \<open>None\<close> when the constructor throws.

  What is assumed of the parser is written down as \<open>url_std\<close>, the basic URL parser of
  the URL Standard (no base URL) followed by the \<^verbatim>\<open>hostname\<close> getter, on the inputs
  where the host needs no Unicode or IP-address processing. On the other inputs
  (a host with a non-ASCII character, a percent sign, a bracket, the text \<^verbatim>\<open>xn--\<close>, or
  a last label that starts with a digit) \<open>url_std\<close> answers \<open>NotCovered\<close> and nothing is
  assumed. URL strings are byte strings here: a \<open>char\<close> of 128 or more stands for a
  non-ASCII character.
\<close>

record URL =
  hostname :: string

datatype parse_result = NotCovered | Throws | Parsed URL

definition ascii_upper :: string where
  "ascii_upper = ''ABCDEFGHIJKLMNOPQRSTUVWXYZ''"

definition ascii_lower :: string where
  "ascii_lower = ''abcdefghijklmnopqrstuvwxyz''"

definition ascii_digit :: string where
  "ascii_digit = ''0123456789''"

definition is_alpha :: "char \<Rightarrow> bool" where
  "is_alpha c = (c \<in> set ascii_upper \<or> c \<in> set ascii_lower)"

definition to_lower :: "char \<Rightarrow> char" where
  "to_lower c = (case map_of (zip ascii_upper ascii_lower) c of Some l \<Rightarrow> l | None \<Rightarrow> c)"

definition c0_or_space :: "char \<Rightarrow> bool" where
  "c0_or_space c = ((of_char c :: nat) \<le> 0x20)"

definition tab_or_newline :: "char \<Rightarrow> bool" where
  "tab_or_newline c = (c = CHR 0x09 \<or> c = CHR 0x0A \<or> c = CHR 0x0D)"

text \<open>Leading and trailing C0 controls and spaces are stripped, then tabs and newlines removed.\<close>

definition preprocess :: "string \<Rightarrow> string" where
  "preprocess s =
     filter (\<lambda>c. \<not> tab_or_newline c)
       (rev (dropWhile c0_or_space (rev (dropWhile c0_or_space s))))"

definition scheme_char :: "char \<Rightarrow> bool" where
  "scheme_char c = (is_alpha c \<or> c \<in> set ascii_digit \<or> c \<in> set ''+-.'')"

text \<open>
  Scheme start state and scheme state: a letter, then letters, digits, \<^verbatim>\<open>+\<close>, \<^verbatim>\<open>-\<close>, \<^verbatim>\<open>.\<close>
  up to a colon. Anything else is a URL without a scheme, which fails without a base.
\<close>

definition split_scheme :: "string \<Rightarrow> (string \<times> string) option" where
  "split_scheme s =
     (case s of
        [] \<Rightarrow> None
      | c # _ \<Rightarrow>
          if \<not> is_alpha c then None
          else (case dropWhile scheme_char s of
                  [] \<Rightarrow> None
                | d # r \<Rightarrow> if d = CHR '':'' then Some (map to_lower (takeWhile scheme_char s), r)
                           else None))"

definition special_schemes :: "string list" where
  "special_schemes = [''ftp'', ''file'', ''http'', ''https'', ''ws'', ''wss'']"

definition forbidden_host :: "char \<Rightarrow> bool" where
  "forbidden_host c =
     (c \<in> {CHR 0x00, CHR 0x09, CHR 0x0A, CHR 0x0D, CHR 0x20, CHR 0x5C} \<or> c \<in> set ''#/:<>?@[]^|'')"

definition forbidden_domain :: "char \<Rightarrow> bool" where
  "forbidden_domain c =
     (forbidden_host c \<or> (of_char c :: nat) \<le> 0x1F \<or> c = CHR ''%'' \<or> c = CHR 0x7F)"

fun contains_xn :: "string \<Rightarrow> bool" where
  "contains_xn [] = False"
| "contains_xn (c # cs) = (take 4 (c # cs) = ''xn--'' \<or> contains_xn cs)"

text \<open>
  The last label, after at most one trailing dot is dropped, starts with a digit: this
  holds of every host that the standard's ends-in-a-number check sends to the IPv4 parser.
\<close>

definition number_like :: "string \<Rightarrow> bool" where
  "number_like d =
     (let d1 = (if d \<noteq> [] \<and> last d = CHR ''.'' then butlast d else d);
          l = rev (takeWhile (\<lambda>c. c \<noteq> CHR ''.'') (rev d1))
      in l \<noteq> [] \<and> hd l \<in> set ascii_digit)"

text \<open>
  The host of a special scheme is a domain: on ASCII input without \<^verbatim>\<open>xn--\<close> labels,
  domain-to-ASCII is ASCII lowercasing, and a forbidden domain code point is a failure.
\<close>

definition host_special :: "string \<Rightarrow> parse_result" where
  "host_special h =
     (if (\<exists>c \<in> set h. (128::nat) \<le> of_char c \<or> c = CHR ''%'' \<or> c = CHR ''['' \<or> c = CHR '']'')
      then NotCovered
      else let d = map to_lower h in
        if contains_xn d then NotCovered
        else if (\<exists>c \<in> set d. forbidden_domain c) then Throws
        else if number_like d then NotCovered
        else Parsed \<lparr>hostname = d\<rparr>)"

text \<open>The host of any other scheme is opaque: it is kept as written, never lowercased.\<close>

definition host_opaque :: "string \<Rightarrow> parse_result" where
  "host_opaque h =
     (if (\<exists>c \<in> set h. c = CHR ''['' \<or> c = CHR '']'') then NotCovered
      else if (\<exists>c \<in> set h. forbidden_host c) then Throws
      else if (\<exists>c \<in> set h. (of_char c :: nat) < 0x20 \<or> (0x7F::nat) \<le> of_char c) then NotCovered
      else Parsed \<lparr>hostname = h\<rparr>)"

definition decimal :: "string \<Rightarrow> nat" where
  "decimal ds = foldl (\<lambda>n c. 10 * n + (of_char c - of_char (CHR ''0''))) 0 ds"

text \<open>Port state: digits only, and a value of at most 65535.\<close>

definition port_ok :: "string \<Rightarrow> bool" where
  "port_ok p = ((\<forall>c \<in> set p. c \<in> set ascii_digit) \<and> decimal p \<le> 65535)"

text \<open>
  Host state and port state, on the text between the credentials and the end of the
  authority. The host ends at the first colon; an empty host before a colon is a
  failure, and so is an empty host of a special scheme.
\<close>

definition host_port :: "bool \<Rightarrow> string \<Rightarrow> parse_result" where
  "host_port special hp =
     (if (\<exists>c \<in> set hp. c = CHR ''['' \<or> c = CHR '']'') then NotCovered
      else let h = takeWhile (\<lambda>c. c \<noteq> CHR '':'') hp;
               p = dropWhile (\<lambda>c. c \<noteq> CHR '':'') hp
           in if h = [] \<and> (p \<noteq> [] \<or> special) then Throws
              else (case (if special then host_special h else host_opaque h) of
                      Parsed u \<Rightarrow> if p = [] \<or> port_ok (tl p) then Parsed u else Throws
                    | other \<Rightarrow> other))"

text \<open>
  Authority state: the authority runs to the first \<^verbatim>\<open>/\<close>, \<^verbatim>\<open>?\<close> or \<^verbatim>\<open>#\<close> (for a special
  scheme also a backslash). The host starts after the last \<^verbatim>\<open>@\<close>; credentials with
  nothing after them are a failure.
\<close>

definition authority :: "bool \<Rightarrow> string \<Rightarrow> parse_result" where
  "authority special r =
     (let auth = takeWhile (\<lambda>c. \<not> (c \<in> set ''/?#'' \<or> (special \<and> c = CHR 0x5C))) r;
          hp = rev (takeWhile (\<lambda>c. c \<noteq> CHR ''@'') (rev auth))
      in if CHR ''@'' \<in> set auth \<and> hp = [] then Throws else host_port special hp)"

definition is_slash :: "char \<Rightarrow> bool" where
  "is_slash c = (c = CHR ''/'' \<or> c = CHR 0x5C)"

text \<open>
  File state, file slash state and file host state. Without two slashes the host is
  empty; a Windows drive letter is not a host; \<^verbatim>\<open>localhost\<close> becomes the empty host.
\<close>

definition file_host :: "string \<Rightarrow> parse_result" where
  "file_host r =
     (case r of
        s1 # s2 # r' \<Rightarrow>
          if is_slash s1 \<and> is_slash s2 then
            let buf = takeWhile (\<lambda>c. \<not> (is_slash c \<or> c = CHR ''?'' \<or> c = CHR ''#'')) r' in
            if buf = [] then Parsed \<lparr>hostname = []\<rparr>
            else if length buf = 2 \<and> is_alpha (hd buf) \<and> (buf ! 1 = CHR '':'' \<or> buf ! 1 = CHR ''|'')
              then Parsed \<lparr>hostname = []\<rparr>
            else (case host_special buf of
                    Parsed u \<Rightarrow> if hostname u = ''localhost'' then Parsed \<lparr>hostname = []\<rparr> else Parsed u
                  | other \<Rightarrow> other)
          else Parsed \<lparr>hostname = []\<rparr>
      | _ \<Rightarrow> Parsed \<lparr>hostname = []\<rparr>)"

text \<open>
  After the scheme: \<^verbatim>\<open>file\<close> has its own states; a special scheme skips every slash and
  backslash and reads an authority; another scheme has an authority only after \<^verbatim>\<open>//\<close>,
  and otherwise no host at all, for which the \<^verbatim>\<open>hostname\<close> getter gives the empty string.
  Nothing after the authority can make the parser fail.
\<close>

definition url_std :: "string \<Rightarrow> parse_result" where
  "url_std input =
     (case split_scheme (preprocess input) of
        None \<Rightarrow> Throws
      | Some (scheme, r) \<Rightarrow>
          if scheme = ''file'' then file_host r
          else if scheme \<in> set special_schemes then authority True (dropWhile is_slash r)
          else (case r of
                  s1 # s2 # r' \<Rightarrow>
                    if s1 = CHR ''/'' \<and> s2 = CHR ''/'' then authority False r'
                    else Parsed \<lparr>hostname = []\<rparr>
                | _ \<Rightarrow> Parsed \<lparr>hostname = []\<rparr>))"

definition conforms :: "(string \<Rightarrow> URL option) \<Rightarrow> bool" where
  "conforms URL_new =
     (\<forall>s. case url_std s of
             NotCovered \<Rightarrow> True
           | Throws \<Rightarrow> URL_new s = None
           | Parsed u \<Rightarrow> URL_new s = Some u)"

text \<open>A parser that conforms: the standard where it is covered, a failure elsewhere.\<close>

definition URL_reference :: "string \<Rightarrow> URL option" where
  "URL_reference s = (case url_std s of Parsed u \<Rightarrow> Some u | _ \<Rightarrow> None)"

text \<open>
  The parts of a URL for which the facts below are stated: a host of ASCII characters
  none of which is a forbidden domain code point; credentials, which end in \<^verbatim>\<open>@\<close> and hold
  nothing that ends the authority; a port, a colon followed by digits of a value up to
  65535; and what follows the authority, which starts with \<^verbatim>\<open>/\<close>, \<^verbatim>\<open>?\<close>, \<^verbatim>\<open>#\<close> or a
  backslash. Credentials, port and what follows may be absent.
\<close>

definition host_code_point :: "char \<Rightarrow> bool" where
  "host_code_point c = ((of_char c :: nat) < 128 \<and> \<not> forbidden_domain c)"

definition credentials_part :: "string \<Rightarrow> bool" where
  "credentials_part cr =
     (cr = [] \<or> (last cr = CHR ''@'' \<and> (\<forall>c \<in> set cr. c \<notin> set ''/?#'' \<and> c \<noteq> CHR 0x5C)))"

definition port_part :: "string \<Rightarrow> bool" where
  "port_part pp = (pp = [] \<or> (hd pp = CHR '':'' \<and> port_ok (tl pp)))"

definition path_part :: "string \<Rightarrow> bool" where
  "path_part rest = (rest = [] \<or> hd rest \<in> set ''/?#'' \<or> hd rest = CHR 0x5C)"

subsection \<open>background.js: helpers and event listeners\<close>

definition getDomainFromUrl :: "(string \<Rightarrow> URL option) \<Rightarrow> string \<Rightarrow> world \<Rightarrow> string option \<times> world" where
  "getDomainFromUrl URL_new url w =
     (case URL_new url of
        Some u \<Rightarrow> (Some (hostname u), w)
      | None \<Rightarrow> (None, console_error (''ToothLit: Invalid URL - '' @ url) w))"

definition icon_path :: "bool \<Rightarrow> (string \<times> string) list" where
  "icon_path isEnabled =
     (if isEnabled
      then [(''16'', ''icons/icon-on-16.png''), (''32'', ''icons/icon-on-32.png'')]
      else [(''16'', ''icons/icon-off-16.png''), (''32'', ''icons/icon-off-32.png'')])"

definition updateIcon :: "nat \<Rightarrow> jsval \<Rightarrow> world \<Rightarrow> unit outcome \<times> world" where
  "updateIcon tabId isEnabled w =
     try_catch
       (action_setIcon tabId (icon_path (truthy isEnabled)) w)
       (\<lambda>w1. (Fulfilled (), console_error ''ToothLit: Failed to set icon for tab'' w1))"

text \<open>
  A tab as the listeners receive it. \<^verbatim>\<open>tab.url\<close> may be missing; \<^verbatim>\<open>new URL(undefined)\<close>
  parses the string \<^verbatim>\<open>undefined\<close>.
\<close>

record tab =
  tab_id :: nat
  tab_url :: "string option"

definition url_string :: "string option \<Rightarrow> string" where
  "url_string u = (case u of Some s \<Rightarrow> s | None \<Rightarrow> ''undefined'')"

text \<open>\<^verbatim>\<open>if (!domain) return;\<close> leaves on \<^verbatim>\<open>null\<close> and on the empty string alike.\<close>

definition onClicked :: "(string \<Rightarrow> URL option) \<Rightarrow> tab \<Rightarrow> world \<Rightarrow> unit outcome \<times> world" where
  "onClicked URL_new tab w =
     (case getDomainFromUrl URL_new (url_string (tab_url tab)) w of
        (None, w0) \<Rightarrow> (Fulfilled (), w0)
      | (Some domain, w0) \<Rightarrow>
          if domain = [] then (Fulfilled (), w0)
          else
            await (getDomainState domain w0) (\<lambda>currentState w1.
              let newState = \<not> truthy currentState in
              await (setDomainState domain newState w1) (\<lambda>_ w2.
                await (updateIcon (tab_id tab) (JBool newState) w2) (\<lambda>_ w3.
                  try_catch
                    (scripting_executeScript (tab_id tab) newState w3)
                    (\<lambda>w4. (Fulfilled (),
                       console_error ''ToothLit: Could not communicate with content script'' w4))))))"

definition onUpdated :: "(string \<Rightarrow> URL option) \<Rightarrow> nat \<Rightarrow> string \<Rightarrow> tab \<Rightarrow> world \<Rightarrow> unit outcome \<times> world" where
  "onUpdated URL_new tabId status tab w =
     (if status = ''complete'' \<and> tab_url tab \<noteq> None \<and> tab_url tab \<noteq> Some []
      then (case getDomainFromUrl URL_new (url_string (tab_url tab)) w of
              (None, w0) \<Rightarrow> (Fulfilled (), w0)
            | (Some domain, w0) \<Rightarrow>
                if domain = [] then (Fulfilled (), w0)
                else await (getDomainState domain w0) (\<lambda>isEnabled w1. updateIcon tabId isEnabled w1))
      else (Fulfilled (), w))"

subsection \<open>The content script\<close>

text \<open>
  The page is an HTML document with a root element and a head, as the HTML parser
  builds it: the inline style of the root element, a map from a property to its value
  and priority; the children of \<^verbatim>\<open>document.head\<close>; and the elements that follow the head,
  flattened in tree order. \<^verbatim>\<open>getElementById\<close> returns the first element in tree order
  that carries the id. \<open>extension_base\<close> is the URL prefix that \<^verbatim>\<open>browser.runtime.getURL\<close>
  puts before a path.
\<close>

record element =
  elem_tag :: string
  elem_id :: string
  elem_rel :: string
  elem_type :: string
  elem_href :: string

record page =
  location_hostname :: string
  root_style :: "string \<rightharpoonup> string \<times> string"
  head_children :: "element list"
  body_elements :: "element list"
  extension_base :: string
  page_console :: "string list"

definition FALLBACK_STYLE_ID :: string where
  "FALLBACK_STYLE_ID = ''toothlit-dark-mode-fallback-css''"

definition getElementById :: "page \<Rightarrow> string \<Rightarrow> element option" where
  "getElementById p i = find (\<lambda>e. elem_id e = i) (head_children p @ body_elements p)"

definition runtime_getURL :: "page \<Rightarrow> string \<Rightarrow> string" where
  "runtime_getURL p path = extension_base p @ path"

definition fallback_link :: "page \<Rightarrow> element" where
  "fallback_link p =
     \<lparr>elem_tag = ''link'', elem_id = FALLBACK_STYLE_ID, elem_rel = ''stylesheet'',
      elem_type = ''text/css'', elem_href = runtime_getURL p ''dark-mode.css''\<rparr>"

definition enableDarkMode :: "page \<Rightarrow> page" where
  "enableDarkMode p =
     (let p1 = p\<lparr>root_style := (root_style p)(''color-scheme'' \<mapsto> (''dark'', ''important''))\<rparr>
      in if getElementById p1 FALLBACK_STYLE_ID = None
         then p1\<lparr>head_children := head_children p1 @ [fallback_link p1]\<rparr>
         else p1)"

fun remove_first :: "('a \<Rightarrow> bool) \<Rightarrow> 'a list \<Rightarrow> 'a list" where
  "remove_first P [] = []"
| "remove_first P (x # xs) = (if P x then xs else x # remove_first P xs)"

text \<open>\<^verbatim>\<open>fallbackStyle.remove()\<close> takes the element found out of the list it stands in.\<close>

definition disableDarkMode :: "page \<Rightarrow> page" where
  "disableDarkMode p =
     (let p1 = p\<lparr>root_style := (root_style p)(''color-scheme'' := None)\<rparr>;
          has_id = (\<lambda>e. elem_id e = FALLBACK_STYLE_ID)
      in case getElementById p1 FALLBACK_STYLE_ID of
           None \<Rightarrow> p1
         | Some fallbackStyle \<Rightarrow>
             if find has_id (head_children p1) \<noteq> None
             then p1\<lparr>head_children := remove_first has_id (head_children p1)\<rparr>
             else p1\<lparr>body_elements := remove_first has_id (body_elements p1)\<rparr>)"

definition on_message :: "message_event \<Rightarrow> page \<Rightarrow> page" where
  "on_message event p =
     (case ev_data event of
        FalsyData \<Rightarrow> p
      | Data src act \<Rightarrow>
          if ev_source event = OwnWindow \<and> src = JStr ''toothlit-background'' then
            if act = JStr ''enableDarkMode'' then enableDarkMode p
            else if act = JStr ''disableDarkMode'' then disableDarkMode p
            else p
          else p)"

text \<open>
  The check made when the script loads. The page context reads the same storage area;
  a rejected read, like any exception of the callback, ends in the \<^verbatim>\<open>catch\<close>.
\<close>

definition initial_check :: "page \<Rightarrow> world \<Rightarrow> page \<times> world" where
  "initial_check p w =
     (case storage_local_get SETTINGS_KEY w of
        (Fulfilled settings, w1) \<Rightarrow>
          (if truthy (js_get (allDomains_of settings) (location_hostname p))
           then enableDarkMode p else p, w1)
      | (Rejected, w1) \<Rightarrow>
          (p\<lparr>page_console := page_console p @ [''ToothLit: Could not read storage.'']\<rparr>, w1))"

text \<open>
  The two states of the page styler. The elements that carry the reserved id are the
  fallback stylesheet elements; the page is light when it has neither such an element
  nor the \<^verbatim>\<open>color-scheme\<close> property.
\<close>

definition reserved_elements :: "page \<Rightarrow> element list" where
  "reserved_elements p =
     filter (\<lambda>e. elem_id e = FALLBACK_STYLE_ID) (head_children p @ body_elements p)"

definition is_light :: "page \<Rightarrow> bool" where
  "is_light p = (root_style p ''color-scheme'' = None \<and> reserved_elements p = [])"

definition is_dark :: "page \<Rightarrow> bool" where
  "is_dark p =
     (root_style p ''color-scheme'' = Some (''dark'', ''important'') \<and> length (reserved_elements p) = 1)"

subsection \<open>Worlds and pages used as concrete inputs\<close>

definition fresh_world :: world where
  "fresh_world =
     \<lparr>storage = Map.empty, icons = Map.empty, mailbox = (\<lambda>_. []), console = [],
      calls = [], faults = []\<rparr>"

definition blank_page :: "string \<Rightarrow> page" where
  "blank_page host =
     \<lparr>location_hostname = host, root_style = Map.empty, head_children = [],
      body_elements = [], extension_base = ''safari-web-extension://toothlit/'',
      page_console = []\<rparr>"

text \<open>
  The scenario of the specification: a tab showing \<^verbatim>\<open>https://news.example/a\<close> is clicked
  twice, starting from an empty store; the page handles the message events queued on
  its window in order.
\<close>

definition news_tab :: tab where
  "news_tab = \<lparr>tab_id = 7, tab_url = Some ''https://news.example/a''\<rparr>"

definition deliver_all :: "message_event list \<Rightarrow> page \<Rightarrow> page" where
  "deliver_all events p = foldl (\<lambda>q event. on_message event q) p events"

definition first_click :: world where
  "first_click = snd (onClicked URL_reference news_tab fresh_world)"

definition second_click :: world where
  "second_click = snd (onClicked URL_reference news_tab first_click)"

section \<open>Properties\<close>

subsection \<open>Browser calls that are not rejected\<close>

lemma take_fault_ok:
  "True \<notin> set (take (Suc n) (faults w)) \<Longrightarrow> take_fault w = (False, w\<lparr>faults := tl (faults w)\<rparr>)"
  by (cases "faults w") (auto simp: take_fault_def)

lemma take_tl: "True \<notin> set (take (Suc n) xs) \<Longrightarrow> True \<notin> set (take n (tl xs))"
  by (cases xs) auto

lemma storage_local_get_ok:
  "True \<notin> set (take (Suc n) (faults w)) \<Longrightarrow>
   storage_local_get key w =
     (Fulfilled (storage w |` {key}), w\<lparr>calls := calls w @ [StorageGet key], faults := tl (faults w)\<rparr>)"
  by (simp add: storage_local_get_def take_fault_ok[where n=n])

lemma storage_local_set_ok:
  "True \<notin> set (take (Suc n) (faults w)) \<Longrightarrow>
   storage_local_set items w =
     (Fulfilled (), w\<lparr>calls := calls w @ [StorageSet items], faults := tl (faults w),
        storage := storage w ++ items\<rparr>)"
  by (simp add: storage_local_set_def take_fault_ok[where n=n])

lemma action_setIcon_ok:
  "True \<notin> set (take (Suc n) (faults w)) \<Longrightarrow>
   action_setIcon tabId path w =
     (Fulfilled (), w\<lparr>calls := calls w @ [SetIcon tabId path], faults := tl (faults w),
        icons := (icons w)(tabId \<mapsto> path)\<rparr>)"
  by (simp add: action_setIcon_def take_fault_ok[where n=n])

lemma scripting_executeScript_ok:
  "True \<notin> set (take (Suc n) (faults w)) \<Longrightarrow>
   scripting_executeScript tabId isDark w =
     (Fulfilled (), w\<lparr>calls := calls w @ [ExecuteScript tabId isDark], faults := tl (faults w),
        mailbox := (mailbox w)(tabId := mailbox w tabId @ [injected_message isDark])\<rparr>)"
  by (simp add: scripting_executeScript_def take_fault_ok[where n=n])

lemma scripting_executeScript_rejected:
  "faults w = True # fs \<Longrightarrow>
   scripting_executeScript tabId isDark w =
     (Rejected, w\<lparr>calls := calls w @ [ExecuteScript tabId isDark], faults := fs\<rparr>)"
  by (simp add: scripting_executeScript_def take_fault_def)

lemma allDomains_of_restrict [simp]:
  "allDomains_of (m |` {SETTINGS_KEY}) = allDomains_of m"
  by (simp add: allDomains_of_def)

lemma getDomainState_ok:
  assumes "True \<notin> set (take (Suc n) (faults w))"
  shows "getDomainState d w =
    (Fulfilled (let v = js_get (allDomains_of (storage w)) d
                in if truthy v then v else JBool False),
     w\<lparr>calls := calls w @ [StorageGet SETTINGS_KEY], faults := tl (faults w)\<rparr>)"
  by (simp add: getDomainState_def try_catch_def await_def storage_local_get_ok[OF assms] Let_def)

lemma setDomainState_ok:
  assumes "True \<notin> set (take (Suc (Suc n)) (faults w))"
  shows "setDomainState d b w =
    (Fulfilled (), w\<lparr>calls := calls w @ [StorageGet SETTINGS_KEY,
         StorageSet [SETTINGS_KEY \<mapsto> js_put (allDomains_of (storage w)) d b]],
       faults := tl (tl (faults w)),
       storage := (storage w)(SETTINGS_KEY \<mapsto> js_put (allDomains_of (storage w)) d b)\<rparr>)"
proof -
  have b: "True \<notin> set (take (Suc n) (tl (faults w)))" using take_tl[OF assms] .
  show ?thesis
    by (simp add: setDomainState_def try_catch_def await_def storage_local_get_ok[OF assms]
        storage_local_set_ok[where n=n] b Let_def)
qed

lemma updateIcon_ok:
  assumes "True \<notin> set (take (Suc n) (faults w))"
  shows "updateIcon tabId v w =
    (Fulfilled (), w\<lparr>calls := calls w @ [SetIcon tabId (icon_path (truthy v))],
       faults := tl (faults w), icons := (icons w)(tabId \<mapsto> icon_path (truthy v))\<rparr>)"
  by (simp add: updateIcon_def try_catch_def action_setIcon_ok[OF assms])

lemma getDomainState_never_rejects: "\<exists>v. fst (getDomainState d w) = Fulfilled v"
  by (auto simp: getDomainState_def try_catch_def await_def storage_local_get_def Let_def
      split: prod.splits outcome.splits bool.splits)

lemma getDomainState_read_fails:
  "faults w = True # fs \<Longrightarrow> fst (getDomainState d w) = Fulfilled (JBool False)"
  by (simp add: getDomainState_def try_catch_def await_def storage_local_get_def take_fault_def)

text \<open>
  The click handler up to the icon update, when the four browser calls of these steps
  are not rejected: what is left is the delivery of the notification.
\<close>

lemma click_until_delivery:
  assumes url: "tab_url tab = Some url"
    and dom: "fst (getDomainFromUrl URL_new url w) = Some domain"
    and nonempty: "domain \<noteq> []"
    and ok: "True \<notin> set (take 4 (faults w))"
    and cur: "fst (getDomainState domain w) = Fulfilled current"
  obtains w3 where
    "onClicked URL_new tab w =
       try_catch
         (scripting_executeScript (tab_id tab) (\<not> truthy current) w3)
         (\<lambda>w4. (Fulfilled (), console_error ''ToothLit: Could not communicate with content script'' w4))"
    and "storage w3 =
       (storage w)(SETTINGS_KEY \<mapsto> js_put (allDomains_of (storage w)) domain (\<not> truthy current))"
    and "icons w3 = (icons w)(tab_id tab \<mapsto> icon_path (\<not> truthy current))"
    and "calls w3 = calls w @
       [StorageGet SETTINGS_KEY,
        StorageGet SETTINGS_KEY,
        StorageSet [SETTINGS_KEY \<mapsto> js_put (allDomains_of (storage w)) domain (\<not> truthy current)],
        SetIcon (tab_id tab) (icon_path (\<not> truthy current))]"
    and "faults w3 = drop 4 (faults w)"
    and "mailbox w3 = mailbox w"
    and "console w3 = console w"
proof -
  from dom have g: "getDomainFromUrl URL_new url w = (Some domain, w)"
    by (auto simp: getDomainFromUrl_def split: option.splits)
  from ok have f1: "True \<notin> set (take (Suc (Suc (Suc (Suc 0)))) (faults w))"
    by (simp add: eval_nat_numeral)
  define w1 where "w1 = w\<lparr>calls := calls w @ [StorageGet SETTINGS_KEY], faults := tl (faults w)\<rparr>"
  have s1: "getDomainState domain w = (Fulfilled current, w1)"
    using cur getDomainState_ok[OF f1, of domain] by (simp add: w1_def)
  have f2: "True \<notin> set (take (Suc (Suc (Suc 0))) (faults w1))"
    using take_tl[OF f1] by (simp add: w1_def)
  define newState where "newState = (\<not> truthy current)"
  define w2 where "w2 = snd (setDomainState domain newState w1)"
  have s2: "setDomainState domain newState w1 = (Fulfilled (), w2)"
    by (simp add: w2_def setDomainState_ok[OF f2])
  have w2_eq: "w2 = w1\<lparr>calls := calls w1 @ [StorageGet SETTINGS_KEY,
         StorageSet [SETTINGS_KEY \<mapsto> js_put (allDomains_of (storage w1)) domain newState]],
       faults := tl (tl (faults w1)),
       storage := (storage w1)(SETTINGS_KEY \<mapsto> js_put (allDomains_of (storage w1)) domain newState)\<rparr>"
    by (simp add: w2_def setDomainState_ok[OF f2])
  have f3: "True \<notin> set (take (Suc 0) (faults w2))"
    using take_tl[OF take_tl[OF f2]] by (simp add: w2_eq)
  define w3 where "w3 = snd (updateIcon (tab_id tab) (JBool newState) w2)"
  have s3: "updateIcon (tab_id tab) (JBool newState) w2 = (Fulfilled (), w3)"
    by (simp add: w3_def updateIcon_ok[OF f3])
  have w3_eq: "w3 = w2\<lparr>calls := calls w2 @ [SetIcon (tab_id tab) (icon_path newState)],
       faults := tl (faults w2), icons := (icons w2)(tab_id tab \<mapsto> icon_path newState)\<rparr>"
    by (simp add: w3_def updateIcon_ok[OF f3])
  have d4: "drop 4 (faults w) = tl (tl (tl (tl (faults w))))"
    by (simp add: drop_Suc eval_nat_numeral tl_drop)
  have run: "onClicked URL_new tab w =
      try_catch (scripting_executeScript (tab_id tab) (\<not> truthy current) w3)
        (\<lambda>w4. (Fulfilled (), console_error ''ToothLit: Could not communicate with content script'' w4))"
    using nonempty
    by (simp add: onClicked_def url url_string_def g await_def s1 s2 s3 newState_def[symmetric])
  show thesis
    by (rule that[OF run]) (simp_all add: w3_eq w2_eq w1_def newState_def d4)
qed

subsection \<open>Characters of hosts and ports\<close>

lemma to_lower_cases:
  "to_lower c = c \<or> (c \<in> set ascii_upper \<and> to_lower c \<in> set ascii_lower)"
proof (cases "map_of (zip ascii_upper ascii_lower) c")
  case None
  then show ?thesis by (simp add: to_lower_def)
next
  case (Some l)
  then have "(c, l) \<in> set (zip ascii_upper ascii_lower)" by (rule map_of_SomeD)
  then have "c \<in> set ascii_upper" and "l \<in> set ascii_lower"
    by (auto dest: set_zip_leftD set_zip_rightD)
  with Some show ?thesis by (simp add: to_lower_def)
qed

lemma space_forbidden: "c0_or_space c \<Longrightarrow> forbidden_domain c"
proof (cases "(of_char c :: nat) = 32")
  case True
  have "(of_char (CHR 0x20) :: nat) = 32" by simp
  with True have "(of_char c :: nat) = of_char (CHR 0x20)" by simp
  then have "c = CHR 0x20" by (simp only: of_char_eq_iff)
  then show ?thesis by (simp add: forbidden_domain_def forbidden_host_def)
next
  case False
  assume "c0_or_space c"
  with False have "(of_char c :: nat) \<le> 0x1F" by (simp add: c0_or_space_def)
  then show ?thesis by (simp add: forbidden_domain_def)
qed

lemma host_code_pointD:
  assumes "\<forall>c \<in> set host. host_code_point c" and "c \<in> set host"
  shows "c \<noteq> CHR '':''" and "c \<noteq> CHR ''@''" and "c \<noteq> CHR ''[''" and "c \<noteq> CHR '']''"
    and "c \<noteq> CHR ''/''" and "c \<noteq> CHR ''?''" and "c \<noteq> CHR ''#''" and "c \<noteq> CHR 0x5C"
    and "c \<noteq> CHR ''%''" and "\<not> is_slash c" and "\<not> c0_or_space c"
    and "\<not> (128::nat) \<le> of_char c"
proof -
  from assms have "host_code_point c" by blast
  then have f: "\<not> forbidden_domain c" and a: "(of_char c :: nat) < 128"
    by (simp_all add: host_code_point_def)
  from f have "c \<noteq> CHR '':'' \<and> c \<noteq> CHR ''@'' \<and> c \<noteq> CHR ''['' \<and> c \<noteq> CHR '']''
      \<and> c \<noteq> CHR ''/'' \<and> c \<noteq> CHR ''?'' \<and> c \<noteq> CHR ''#'' \<and> c \<noteq> CHR 0x5C \<and> c \<noteq> CHR ''%''"
    by (simp add: forbidden_domain_def forbidden_host_def)
  then show "c \<noteq> CHR '':''" and "c \<noteq> CHR ''@''" and "c \<noteq> CHR ''[''" and "c \<noteq> CHR '']''"
    and "c \<noteq> CHR ''/''" and "c \<noteq> CHR ''?''" and "c \<noteq> CHR ''#''" and "c \<noteq> CHR 0x5C"
    and "c \<noteq> CHR ''%''" and "\<not> is_slash c"
    by (simp_all add: is_slash_def)
  from f space_forbidden show "\<not> c0_or_space c" by blast
  from a show "\<not> (128::nat) \<le> of_char c" by simp
qed

lemma lower_allowed: "\<forall>c \<in> set ascii_lower. \<not> forbidden_domain c"
  by (simp add: ascii_lower_def forbidden_domain_def forbidden_host_def)

lemma to_lower_allowed:
  assumes "host_code_point c"
  shows "\<not> forbidden_domain (to_lower c)"
proof (cases "to_lower c = c")
  case True
  with assms show ?thesis by (simp add: host_code_point_def)
next
  case False
  with to_lower_cases[of c] have "to_lower c \<in> set ascii_lower" by blast
  with lower_allowed show ?thesis by blast
qed

lemma digit_plain:
  "\<forall>c \<in> set ascii_digit. \<not> c0_or_space c \<and> c \<notin> set ''/?#'' \<and> c \<noteq> CHR 0x5C \<and> c \<noteq> CHR ''@''
    \<and> c \<noteq> CHR ''['' \<and> c \<noteq> CHR '']'' \<and> c \<noteq> CHR '':''"
  by (simp add: ascii_digit_def c0_or_space_def)

subsection \<open>The parser on URLs with a plain host\<close>

lemma host_special_plain:
  assumes "\<forall>c \<in> set host. host_code_point c"
    and "\<not> contains_xn (map to_lower host)" and "\<not> number_like (map to_lower host)"
  shows "host_special host = Parsed \<lparr>hostname = map to_lower host\<rparr>"
proof -
  have "\<forall>c \<in> set host. \<not> ((128::nat) \<le> of_char c \<or> c = CHR ''%'' \<or> c = CHR ''['' \<or> c = CHR '']'')"
    by (intro ballI) (simp add: host_code_pointD[OF assms(1)])
  then have a: "\<not> (\<exists>c \<in> set host. (128::nat) \<le> of_char c \<or> c = CHR ''%'' \<or> c = CHR ''['' \<or> c = CHR '']'')"
    by blast
  have "\<forall>c \<in> set host. \<not> forbidden_domain (to_lower c)"
    using assms(1) to_lower_allowed by blast
  then have b: "\<not> (\<exists>c \<in> set (map to_lower host). forbidden_domain c)"
    by (simp add: Bex_def image_iff) blast
  show ?thesis
    using a b assms(2,3) by (simp add: host_special_def Let_def del: set_map)
qed

lemma digitD:
  assumes "\<forall>c \<in> set port. c \<in> set ascii_digit" and "c \<in> set port"
  shows "c \<noteq> CHR '':''" and "c \<noteq> CHR ''@''" and "c \<noteq> CHR ''[''" and "c \<noteq> CHR '']''"
    and "c \<noteq> CHR ''/''" and "c \<noteq> CHR ''?''" and "c \<noteq> CHR ''#''" and "c \<noteq> CHR 0x5C"
    and "\<not> c0_or_space c"
proof -
  from assms have "c \<in> set ascii_digit" by blast
  with digit_plain
  have "\<not> c0_or_space c \<and> c \<notin> set ''/?#'' \<and> c \<noteq> CHR 0x5C \<and> c \<noteq> CHR ''@''
    \<and> c \<noteq> CHR ''['' \<and> c \<noteq> CHR '']'' \<and> c \<noteq> CHR '':''"
    by blast
  then show "c \<noteq> CHR '':''" and "c \<noteq> CHR ''@''" and "c \<noteq> CHR ''[''" and "c \<noteq> CHR '']''"
    and "c \<noteq> CHR ''/''" and "c \<noteq> CHR ''?''" and "c \<noteq> CHR ''#''" and "c \<noteq> CHR 0x5C"
    and "\<not> c0_or_space c"
    by simp_all
qed

lemma port_partD:
  assumes "port_part pp" and "c \<in> set pp"
  shows "c \<noteq> CHR ''@''" and "c \<noteq> CHR ''[''" and "c \<noteq> CHR '']''"
    and "c \<noteq> CHR ''/''" and "c \<noteq> CHR ''?''" and "c \<noteq> CHR ''#''" and "c \<noteq> CHR 0x5C"
    and "\<not> c0_or_space c"
proof -
  from assms obtain port where pp: "pp = CHR '':'' # port" and "port_ok port"
    by (cases pp) (auto simp: port_part_def)
  then have d: "\<forall>c \<in> set port. c \<in> set ascii_digit" by (simp add: port_ok_def)
  from assms(2) pp consider (colon) "c = CHR '':''" | (digit) "c \<in> set port" by auto
  then have "c \<noteq> CHR ''@'' \<and> c \<noteq> CHR ''['' \<and> c \<noteq> CHR '']'' \<and> c \<noteq> CHR ''/''
      \<and> c \<noteq> CHR ''?'' \<and> c \<noteq> CHR ''#'' \<and> c \<noteq> CHR 0x5C \<and> \<not> c0_or_space c"
  proof cases
    case colon
    then show ?thesis by (simp add: c0_or_space_def)
  next
    case digit
    from digitD[OF d digit] show ?thesis by simp
  qed
  then show "c \<noteq> CHR ''@''" and "c \<noteq> CHR ''[''" and "c \<noteq> CHR '']''"
    and "c \<noteq> CHR ''/''" and "c \<noteq> CHR ''?''" and "c \<noteq> CHR ''#''" and "c \<noteq> CHR 0x5C"
    and "\<not> c0_or_space c"
    by simp_all
qed

lemma host_port_special:
  assumes host: "host \<noteq> []" "\<forall>c \<in> set host. host_code_point c"
    and xn: "\<not> contains_xn (map to_lower host)" and num: "\<not> number_like (map to_lower host)"
    and pp: "port_part pp"
  shows "host_port True (host @ pp) = Parsed \<lparr>hostname = map to_lower host\<rparr>"
proof -
  have "\<forall>c \<in> set host. \<not> (c = CHR ''['' \<or> c = CHR '']'')"
    by (intro ballI) (simp add: host_code_pointD[OF host(2)])
  moreover have "\<forall>c \<in> set pp. \<not> (c = CHR ''['' \<or> c = CHR '']'')"
    by (intro ballI) (simp add: port_partD[OF pp])
  ultimately have nb: "\<not> (\<exists>c \<in> set (host @ pp). c = CHR ''['' \<or> c = CHR '']'')"
    by auto
  have nc: "\<forall>c \<in> set host. c \<noteq> CHR '':''" using host_code_pointD(1)[OF host(2)] by blast
  have stop: "takeWhile (\<lambda>c. c \<noteq> CHR '':'') pp = []" and same: "dropWhile (\<lambda>c. c \<noteq> CHR '':'') pp = pp"
    using pp by (cases pp; simp add: port_part_def)+
  have h: "takeWhile (\<lambda>c. c \<noteq> CHR '':'') (host @ pp) = host"
    using nc by (simp add: takeWhile_append2 stop)
  have p: "dropWhile (\<lambda>c. c \<noteq> CHR '':'') (host @ pp) = pp"
    using nc by (simp add: dropWhile_append2 same)
  have po: "pp = [] \<or> port_ok (tl pp)" using pp by (auto simp: port_part_def)
  show ?thesis
    unfolding host_port_def h p Let_def host_special_plain[OF host(2) xn num]
    using nb host(1) po by simp
qed

lemma authority_special:
  assumes creds: "credentials_part creds"
    and host: "host \<noteq> []" "\<forall>c \<in> set host. host_code_point c"
    and xn: "\<not> contains_xn (map to_lower host)" and num: "\<not> number_like (map to_lower host)"
    and pp: "port_part pp"
    and rest: "path_part rest"
  shows "authority True (creds @ host @ pp @ rest) = Parsed \<lparr>hostname = map to_lower host\<rparr>"
proof -
  define inside where "inside = (\<lambda>c. \<not> (c \<in> set ''/?#'' \<or> (True \<and> c = CHR 0x5C)))"
  define hp where "hp = host @ pp"
  define noat where "noat = (\<lambda>c. c \<noteq> CHR ''@'')"
  have "\<forall>c \<in> set host. inside c \<and> noat c"
    by (intro ballI) (simp add: inside_def noat_def host_code_pointD[OF host(2)])
  moreover have "\<forall>c \<in> set pp. inside c \<and> noat c"
    by (intro ballI) (simp add: inside_def noat_def port_partD[OF pp])
  ultimately have ins: "\<forall>c \<in> set hp. inside c"
    and na: "\<forall>c \<in> set (rev hp). noat c"
    by (auto simp: hp_def)
  have cins: "\<forall>c \<in> set creds. inside c"
    using creds by (auto simp: credentials_part_def inside_def)
  have stop: "takeWhile inside rest = []"
    using rest by (cases rest) (auto simp: inside_def path_part_def)
  have "takeWhile inside ((creds @ hp) @ rest) = (creds @ hp) @ takeWhile inside rest"
    by (rule takeWhile_append2) (use ins cins in auto)
  then have auth: "takeWhile inside (creds @ host @ pp @ rest) = creds @ hp"
    by (simp add: stop hp_def)
  have cstop: "takeWhile noat (rev creds) = []"
  proof (cases "creds = []")
    case True
    then show ?thesis by simp
  next
    case False
    with creds have "last creds = CHR ''@''" by (simp add: credentials_part_def)
    with False have "hd (rev creds) = CHR ''@''" by (simp add: hd_rev)
    with False show ?thesis by (cases "rev creds") (simp_all add: noat_def)
  qed
  have "takeWhile noat (rev hp @ rev creds) = rev hp @ takeWhile noat (rev creds)"
    by (rule takeWhile_append2) (use na in blast)
  then have last_at: "rev (takeWhile noat (rev (creds @ hp))) = hp"
    by (simp add: cstop)
  have ne: "hp \<noteq> []" using host(1) by (simp add: hp_def)
  have "authority True (creds @ host @ pp @ rest) = host_port True hp"
    unfolding authority_def inside_def[symmetric] noat_def[symmetric] auth Let_def last_at
    using ne by simp
  then show ?thesis
    by (simp add: hp_def host_port_special[OF host xn num pp])
qed

lemma url_std_special:
  assumes sch: "split_scheme (preprocess url) = Some (scheme, r)"
    and scheme: "scheme \<in> set special_schemes" "scheme \<noteq> ''file''"
    and shape: "r = slashes @ creds @ host @ pp @ rest"
    and slashes: "\<forall>c \<in> set slashes. is_slash c"
    and creds: "credentials_part creds"
    and host: "host \<noteq> []" "\<forall>c \<in> set host. host_code_point c"
    and xn: "\<not> contains_xn (map to_lower host)" and num: "\<not> number_like (map to_lower host)"
    and pp: "port_part pp"
    and rest: "path_part rest"
  shows "url_std url = Parsed \<lparr>hostname = map to_lower host\<rparr>"
proof -
  define tail where "tail = creds @ host @ pp @ rest"
  have "tail \<noteq> []" using host(1) by (simp add: tail_def)
  moreover have "\<not> is_slash (hd tail)"
  proof (cases "creds = []")
    case True
    then have "hd tail = hd host" using host(1) by (simp add: tail_def)
    moreover have "hd host \<in> set host" using host(1) by simp
    ultimately show ?thesis using host_code_pointD(10)[OF host(2)] by simp
  next
    case False
    then have "hd tail = hd creds" by (simp add: tail_def)
    moreover have "hd creds \<in> set creds" using False by simp
    ultimately show ?thesis
      using creds False by (auto simp: credentials_part_def is_slash_def)
  qed
  ultimately have "dropWhile is_slash tail = tail" by (cases tail) simp_all
  moreover have "dropWhile is_slash (slashes @ tail) = dropWhile is_slash tail"
    by (rule dropWhile_append2) (use slashes in blast)
  ultimately have skip: "dropWhile is_slash r = tail" by (simp add: shape tail_def)
  show ?thesis
    unfolding url_std_def sch using scheme
    by (simp add: skip tail_def authority_special[OF creds host xn num pp rest])
qed

subsection \<open>The parser on the URLs used below\<close>

lemma URL_reference_conforms: "conforms URL_reference"
  by (auto simp: conforms_def URL_reference_def split: parse_result.splits)

lemma conforms_Parsed:
  assumes "conforms URL_new" and "url_std s = Parsed u"
  shows "URL_new s = Some u"
proof -
  from assms(1) have "case url_std s of NotCovered \<Rightarrow> True | Throws \<Rightarrow> URL_new s = None
      | Parsed u \<Rightarrow> URL_new s = Some u"
    unfolding conforms_def by (rule spec)
  with assms(2) show ?thesis by simp
qed

lemma conforms_Throws:
  assumes "conforms URL_new" and "url_std s = Throws"
  shows "URL_new s = None"
proof -
  from assms(1) have "case url_std s of NotCovered \<Rightarrow> True | Throws \<Rightarrow> URL_new s = None
      | Parsed u \<Rightarrow> URL_new s = Some u"
    unfolding conforms_def by (rule spec)
  with assms(2) show ?thesis by simp
qed

lemma preprocess_about_blank: "preprocess ''about:blank'' = ''about:blank''"
  by (simp add: preprocess_def c0_or_space_def tab_or_newline_def)

lemma split_scheme_about_blank: "split_scheme ''about:blank'' = Some (''about'', ''blank'')"
  by (simp add: split_scheme_def scheme_char_def is_alpha_def ascii_upper_def ascii_lower_def
      ascii_digit_def to_lower_def)

lemma url_std_about_blank: "url_std ''about:blank'' = Parsed \<lparr>hostname = []\<rparr>"
  by (simp add: url_std_def preprocess_about_blank split_scheme_about_blank special_schemes_def)

lemma preprocess_not_a_url: "preprocess ''not a url'' = ''not a url''"
  by (simp add: preprocess_def c0_or_space_def tab_or_newline_def)

lemma split_scheme_not_a_url: "split_scheme ''not a url'' = None"
  by (simp add: split_scheme_def scheme_char_def is_alpha_def ascii_upper_def ascii_lower_def
      ascii_digit_def)

lemma url_std_not_a_url: "url_std ''not a url'' = Throws"
  by (simp add: url_std_def preprocess_not_a_url split_scheme_not_a_url)








lemma preprocess_news: "preprocess ''https://news.example/a'' = ''https://news.example/a''"
  by (simp add: preprocess_def c0_or_space_def tab_or_newline_def)

lemma split_scheme_news:
  "split_scheme ''https://news.example/a'' = Some (''https'', ''//news.example/a'')"
  by (simp add: split_scheme_def scheme_char_def is_alpha_def ascii_upper_def ascii_lower_def
      ascii_digit_def to_lower_def)

lemma host_code_points_news: "\<forall>c \<in> set ''news.example''. host_code_point c"
  by (simp add: host_code_point_def forbidden_domain_def forbidden_host_def)

lemma to_lower_news: "map to_lower ''news.example'' = ''news.example''"
  by (simp add: to_lower_def ascii_upper_def ascii_lower_def)

lemma url_std_news: "url_std ''https://news.example/a'' = Parsed \<lparr>hostname = ''news.example''\<rparr>"
proof -
  have sch: "split_scheme (preprocess ''https://news.example/a'')
      = Some (''https'', ''//news.example/a'')"
    unfolding preprocess_news by (rule split_scheme_news)
  have "url_std ''https://news.example/a'' = Parsed \<lparr>hostname = map to_lower ''news.example''\<rparr>"
  proof (rule url_std_special[OF sch, where slashes = "''//''" and creds = "[]"
        and pp = "[]" and rest = "''/a''"])
    show "''https'' \<in> set special_schemes" by (simp add: special_schemes_def)
    show "''https'' \<noteq> ''file''" by simp
    show "''//news.example/a'' = ''//'' @ [] @ ''news.example'' @ [] @ ''/a''" by simp
    show "\<forall>c \<in> set ''//''. is_slash c" by (simp add: is_slash_def)
    show "credentials_part []" by (simp add: credentials_part_def)
    show "''news.example'' \<noteq> []" by simp
    show "\<forall>c \<in> set ''news.example''. host_code_point c" by (rule host_code_points_news)
    show "\<not> contains_xn (map to_lower ''news.example'')" unfolding to_lower_news by simp
    show "\<not> number_like (map to_lower ''news.example'')"
      unfolding to_lower_news by (simp add: number_like_def ascii_digit_def)
    show "port_part []" by (simp add: port_part_def)
    show "path_part ''/a''" by (simp add: path_part_def)
  qed
  then show ?thesis unfolding to_lower_news .
qed

subsection \<open>The toggle controller and the preference store\<close>

lemma getDomainFromUrl_reference_news:
  "getDomainFromUrl URL_reference ''https://news.example/a'' w = (Some ''news.example'', w)"
  by (simp add: getDomainFromUrl_def URL_reference_def url_std_news)

lemma getDomainFromUrl_reference_about_blank:
  "getDomainFromUrl URL_reference ''about:blank'' w = (Some [], w)"
  by (simp add: getDomainFromUrl_def URL_reference_def url_std_about_blank)

lemma getDomainState_fresh:
  "d \<notin> set Object_prototype_keys \<Longrightarrow> fst (getDomainState d fresh_world) = Fulfilled (JBool False)"
  by (simp add: getDomainState_def try_catch_def await_def storage_local_get_def take_fault_def
      fresh_world_def allDomains_of_def js_get_def Let_def)

text \<open>
  C1. A click on a tab whose URL parses performs the toggle steps in order, provided the
  resolved domain is not empty (the handler's guard leaves on the empty string as well
  as on \<^verbatim>\<open>null\<close>) and is not the name of a member of \<^verbatim>\<open>Object.prototype\<close>, and none of
  the five browser calls is rejected. With \<open>stored\<close> the state kept for the domain, which
  is true exactly when the settings object holds \<^verbatim>\<open>true\<close> under the domain: the state read
  is \<open>stored\<close>; its inverse is written back under the domain, the other domains being
  kept; the icon of the tab is set to the one of the inverse; and one message is posted
  to the tab, whose action is \<^verbatim>\<open>enableDarkMode\<close> when the inverse is true and
  \<^verbatim>\<open>disableDarkMode\<close> when it is false.
\<close>

theorem click_performs_toggle_steps:
  assumes url: "tab_url tab = Some url"
    and dom: "fst (getDomainFromUrl URL_new url w) = Some domain"
    and nonempty: "domain \<noteq> []"
    and plain: "domain \<notin> set Object_prototype_keys"
    and ok: "True \<notin> set (take 5 (faults w))"
    and stored: "stored = (allDomains_of (storage w) domain = Some True)"
  shows "fst (getDomainState domain w) = Fulfilled (JBool stored)
    \<and> fst (onClicked URL_new tab w) = Fulfilled ()
    \<and> calls (snd (onClicked URL_new tab w)) =
        calls w @
        [StorageGet SETTINGS_KEY,
         StorageGet SETTINGS_KEY,
         StorageSet [SETTINGS_KEY \<mapsto> (allDomains_of (storage w))(domain \<mapsto> \<not> stored)],
         SetIcon (tab_id tab) (icon_path (\<not> stored)),
         ExecuteScript (tab_id tab) (\<not> stored)]
    \<and> storage (snd (onClicked URL_new tab w)) =
        (storage w)(SETTINGS_KEY \<mapsto> (allDomains_of (storage w))(domain \<mapsto> \<not> stored))
    \<and> icons (snd (onClicked URL_new tab w)) =
        (icons w)(tab_id tab \<mapsto> icon_path (\<not> stored))
    \<and> mailbox (snd (onClicked URL_new tab w)) =
        (mailbox w)(tab_id tab := mailbox w (tab_id tab) @
          [\<lparr>ev_source = OwnWindow,
            ev_data = Data (JStr ''toothlit-background'')
              (JStr (if \<not> stored then ''enableDarkMode'' else ''disableDarkMode''))\<rparr>])"
proof -
  from ok have ok4: "True \<notin> set (take 4 (faults w))"
    using set_take_subset_set_take[of 4 5 "faults w"] by auto
  from ok have ok1: "True \<notin> set (take (Suc 0) (faults w))"
    using set_take_subset_set_take[of "Suc 0" 5 "faults w"] by auto
  have rd: "(let v = js_get (allDomains_of (storage w)) domain
             in if truthy v then v else JBool False) = JBool stored"
    using plain by (cases "allDomains_of (storage w) domain") (auto simp: js_get_def stored)
  have cur: "fst (getDomainState domain w) = Fulfilled (JBool stored)"
    unfolding getDomainState_ok[OF ok1] rd by simp
  have proto: "domain \<noteq> ''__proto__''"
    using plain by (auto simp: Object_prototype_keys_def)
  from click_until_delivery[OF url dom nonempty ok4 cur]
  obtain w3 where run: "onClicked URL_new tab w =
       try_catch
         (scripting_executeScript (tab_id tab) (\<not> stored) w3)
         (\<lambda>w4. (Fulfilled (), console_error ''ToothLit: Could not communicate with content script'' w4))"
    and w3: "storage w3 =
       (storage w)(SETTINGS_KEY \<mapsto> js_put (allDomains_of (storage w)) domain (\<not> stored))"
      "icons w3 = (icons w)(tab_id tab \<mapsto> icon_path (\<not> stored))"
      "calls w3 = calls w @
       [StorageGet SETTINGS_KEY,
        StorageGet SETTINGS_KEY,
        StorageSet [SETTINGS_KEY \<mapsto> js_put (allDomains_of (storage w)) domain (\<not> stored)],
        SetIcon (tab_id tab) (icon_path (\<not> stored))]"
      "faults w3 = drop 4 (faults w)"
      "mailbox w3 = mailbox w"
    by auto
  have "True \<notin> set (take (Suc 0) (drop 4 (faults w)))"
  proof
    assume "True \<in> set (take (Suc 0) (drop 4 (faults w)))"
    then have "True \<in> set (take 4 (faults w) @ take (Suc 0) (drop 4 (faults w)))" by simp
    then have "True \<in> set (take 5 (faults w))" by (simp add: take_add[symmetric])
    with ok show False by contradiction
  qed
  then have last_ok: "True \<notin> set (take (Suc 0) (faults w3))" by (simp add: w3)
  have rest: "fst (onClicked URL_new tab w) = Fulfilled ()
    \<and> calls (snd (onClicked URL_new tab w)) =
        calls w @
        [StorageGet SETTINGS_KEY,
         StorageGet SETTINGS_KEY,
         StorageSet [SETTINGS_KEY \<mapsto> (allDomains_of (storage w))(domain \<mapsto> \<not> stored)],
         SetIcon (tab_id tab) (icon_path (\<not> stored)),
         ExecuteScript (tab_id tab) (\<not> stored)]
    \<and> storage (snd (onClicked URL_new tab w)) =
        (storage w)(SETTINGS_KEY \<mapsto> (allDomains_of (storage w))(domain \<mapsto> \<not> stored))
    \<and> icons (snd (onClicked URL_new tab w)) =
        (icons w)(tab_id tab \<mapsto> icon_path (\<not> stored))
    \<and> mailbox (snd (onClicked URL_new tab w)) =
        (mailbox w)(tab_id tab := mailbox w (tab_id tab) @
          [\<lparr>ev_source = OwnWindow,
            ev_data = Data (JStr ''toothlit-background'')
              (JStr (if \<not> stored then ''enableDarkMode'' else ''disableDarkMode''))\<rparr>])"
    unfolding run scripting_executeScript_ok[OF last_ok]
    using proto by (simp add: try_catch_def w3 js_put_def injected_message_def)
  from cur rest show ?thesis by (rule conjI)
qed

theorem click_performs_toggle_steps_witness:
  "fst (getDomainFromUrl URL_reference ''https://news.example/a'' fresh_world) = Some ''news.example''
   \<and> ''news.example'' \<notin> set Object_prototype_keys
   \<and> allDomains_of (storage fresh_world) ''news.example'' = None
   \<and> fst (getDomainState ''news.example'' fresh_world) = Fulfilled (JBool False)
   \<and> fst (onClicked URL_reference \<lparr>tab_id = 7, tab_url = Some ''https://news.example/a''\<rparr> fresh_world)
       = Fulfilled ()
   \<and> calls (snd (onClicked URL_reference \<lparr>tab_id = 7, tab_url = Some ''https://news.example/a''\<rparr> fresh_world))
       = [StorageGet ''toothlit_settings'',
          StorageGet ''toothlit_settings'',
          StorageSet [''toothlit_settings'' \<mapsto> [''news.example'' \<mapsto> True]],
          SetIcon 7 [(''16'', ''icons/icon-on-16.png''), (''32'', ''icons/icon-on-32.png'')],
          ExecuteScript 7 True]
   \<and> storage (snd (onClicked URL_reference \<lparr>tab_id = 7, tab_url = Some ''https://news.example/a''\<rparr> fresh_world))
       = [''toothlit_settings'' \<mapsto> [''news.example'' \<mapsto> True]]
   \<and> mailbox (snd (onClicked URL_reference \<lparr>tab_id = 7, tab_url = Some ''https://news.example/a''\<rparr> fresh_world)) 7
       = [\<lparr>ev_source = OwnWindow,
           ev_data = Data (JStr ''toothlit-background'') (JStr ''enableDarkMode'')\<rparr>]"
proof -
  let ?tab = "\<lparr>tab_id = 7, tab_url = Some ''https://news.example/a''\<rparr>"
  have url: "tab_url ?tab = Some ''https://news.example/a''" by simp
  have dom: "fst (getDomainFromUrl URL_reference ''https://news.example/a'' fresh_world) = Some ''news.example''"
    by (simp add: getDomainFromUrl_reference_news)
  have ne: "''news.example'' \<noteq> []" by simp
  have plain: "''news.example'' \<notin> set Object_prototype_keys"
    by (simp add: Object_prototype_keys_def)
  have ok: "True \<notin> set (take 5 (faults fresh_world))" by (simp add: fresh_world_def)
  have none: "allDomains_of (storage fresh_world) ''news.example'' = None"
    by (simp add: fresh_world_def allDomains_of_def)
  have stored: "False = (allDomains_of (storage fresh_world) ''news.example'' = Some True)"
    by (simp add: none)
  have st: "storage fresh_world = Map.empty" "calls fresh_world = []" "mailbox fresh_world = (\<lambda>_. [])"
    by (simp_all add: fresh_world_def)
  from click_performs_toggle_steps[OF url dom ne plain ok stored] dom plain none
  show ?thesis
    by (simp add: st allDomains_of_def SETTINGS_KEY_def icon_path_def)
qed

theorem click_on_about_blank_does_nothing:
  "fst (getDomainFromUrl URL_reference ''about:blank'' fresh_world) = Some []
   \<and> calls (snd (onClicked URL_reference \<lparr>tab_id = 7, tab_url = Some ''about:blank''\<rparr> fresh_world)) = []
   \<and> storage (snd (onClicked URL_reference \<lparr>tab_id = 7, tab_url = Some ''about:blank''\<rparr> fresh_world))
       = Map.empty
   \<and> icons (snd (onClicked URL_reference \<lparr>tab_id = 7, tab_url = Some ''about:blank''\<rparr> fresh_world)) 7
       = None
   \<and> mailbox (snd (onClicked URL_reference \<lparr>tab_id = 7, tab_url = Some ''about:blank''\<rparr> fresh_world)) 7
       = []"
  by (simp add: onClicked_def url_string_def getDomainFromUrl_reference_about_blank fresh_world_def)

text \<open>
  C2. The round trip of the preference store fails for the domain \<^verbatim>\<open>__proto__\<close>, with no
  browser call rejected: on an empty store, \<open>setDomainState\<close> with \<^verbatim>\<open>false\<close> writes a
  settings object without any entry, because the assignment \<^verbatim>\<open>allDomains[domain] = isEnabled\<close>
  reaches the setter inherited from \<^verbatim>\<open>Object.prototype\<close>; and \<open>getDomainState\<close> then
  returns not \<^verbatim>\<open>false\<close> but the inherited member, an object, which is truthy.
\<close>

theorem set_then_get_proto:
  "faults fresh_world = []
   \<and> storage (snd (setDomainState ''__proto__'' False fresh_world))
       = [''toothlit_settings'' \<mapsto> Map.empty]
   \<and> fst (getDomainState ''__proto__'' (snd (setDomainState ''__proto__'' False fresh_world)))
       = Fulfilled (JInherited ''__proto__'')
   \<and> truthy (JInherited ''__proto__'')"
  by (simp add: getDomainState_def setDomainState_def try_catch_def await_def storage_local_get_def
      storage_local_set_def take_fault_def fresh_world_def allDomains_of_def
      js_get_def js_put_def Object_prototype_keys_def SETTINGS_KEY_def Let_def)

text \<open>
  C3. On a store that was never written, \<open>getDomainState\<close> of the domain
  \<^verbatim>\<open>constructor\<close> does not return \<^verbatim>\<open>false\<close>: the read finds \<^verbatim>\<open>Object.prototype.constructor\<close>,
  a function, which is truthy and is returned as it is.
\<close>

theorem get_constructor_on_fresh_store:
  "storage fresh_world = Map.empty
   \<and> fst (getDomainState ''constructor'' fresh_world) = Fulfilled (JInherited ''constructor'')
   \<and> truthy (JInherited ''constructor'')"
  by (simp add: getDomainState_def try_catch_def await_def storage_local_get_def take_fault_def
      fresh_world_def allDomains_of_def js_get_def Object_prototype_keys_def Let_def)

text \<open>
  C7. When the four storage and icon calls of a click succeed and the delivery of the
  notification is rejected, the handler still ends normally and takes nothing back: the
  store is the one \<open>setDomainState\<close> wrote, in which the domain (unless it is
  \<^verbatim>\<open>__proto__\<close>) has the flipped preference; the icon of the tab is the one of the new
  state; no message was posted; and the failure is a line on the console.
\<close>

theorem delivery_failure_keeps_state:
  assumes url: "tab_url tab = Some url"
    and dom: "fst (getDomainFromUrl URL_new url w) = Some domain"
    and nonempty: "domain \<noteq> []"
    and fl: "take 5 (faults w) = [False, False, False, False, True]"
    and cur: "fst (getDomainState domain w) = Fulfilled current"
  shows "fst (onClicked URL_new tab w) = Fulfilled ()
    \<and> storage (snd (onClicked URL_new tab w)) =
        (storage w)(SETTINGS_KEY \<mapsto> js_put (allDomains_of (storage w)) domain (\<not> truthy current))
    \<and> (domain \<noteq> ''__proto__'' \<longrightarrow>
         js_get (allDomains_of (storage (snd (onClicked URL_new tab w)))) domain
           = JBool (\<not> truthy current))
    \<and> icons (snd (onClicked URL_new tab w)) =
        (icons w)(tab_id tab \<mapsto> icon_path (\<not> truthy current))
    \<and> mailbox (snd (onClicked URL_new tab w)) = mailbox w
    \<and> console (snd (onClicked URL_new tab w)) =
        console w @ [''ToothLit: Could not communicate with content script'']"
proof -
  have "take 4 (faults w) = take 4 (take 5 (faults w))" by simp
  then have ok4: "True \<notin> set (take 4 (faults w))" unfolding fl by simp
  from click_until_delivery[OF url dom nonempty ok4 cur]
  obtain w3 where run: "onClicked URL_new tab w =
       try_catch
         (scripting_executeScript (tab_id tab) (\<not> truthy current) w3)
         (\<lambda>w4. (Fulfilled (), console_error ''ToothLit: Could not communicate with content script'' w4))"
    and w3: "storage w3 =
       (storage w)(SETTINGS_KEY \<mapsto> js_put (allDomains_of (storage w)) domain (\<not> truthy current))"
      "icons w3 = (icons w)(tab_id tab \<mapsto> icon_path (\<not> truthy current))"
      "faults w3 = drop 4 (faults w)"
      "mailbox w3 = mailbox w"
      "console w3 = console w"
    by blast
  have "take 1 (drop 4 (faults w)) = drop 4 (take 5 (faults w))"
    by (simp add: drop_take)
  then have "take 1 (drop 4 (faults w)) = [True]" unfolding fl by simp
  then obtain fs where "faults w3 = True # fs"
    unfolding w3 by (cases "drop 4 (faults w)") auto
  from scripting_executeScript_rejected[OF this]
  have final: "onClicked URL_new tab w =
      (Fulfilled (),
       console_error ''ToothLit: Could not communicate with content script''
         (w3\<lparr>calls := calls w3 @ [ExecuteScript (tab_id tab) (\<not> truthy current)], faults := fs\<rparr>))"
    unfolding run by (simp add: try_catch_def)
  have kept: "js_get (allDomains_of (storage w3)) domain = JBool (\<not> truthy current)"
    if "domain \<noteq> ''__proto__''"
    using that by (simp add: w3 allDomains_of_def js_put_def js_get_def)
  show ?thesis
    unfolding final using kept by (simp add: console_error_def w3)
qed

theorem delivery_failure_keeps_state_witness:
  "take 5 (faults (fresh_world\<lparr>faults := [False, False, False, False, True]\<rparr>))
     = [False, False, False, False, True]
   \<and> fst (onClicked URL_reference \<lparr>tab_id = 7, tab_url = Some ''https://news.example/a''\<rparr>
          (fresh_world\<lparr>faults := [False, False, False, False, True]\<rparr>)) = Fulfilled ()
   \<and> storage (snd (onClicked URL_reference \<lparr>tab_id = 7, tab_url = Some ''https://news.example/a''\<rparr>
          (fresh_world\<lparr>faults := [False, False, False, False, True]\<rparr>)))
       = [''toothlit_settings'' \<mapsto> [''news.example'' \<mapsto> True]]
   \<and> icons (snd (onClicked URL_reference \<lparr>tab_id = 7, tab_url = Some ''https://news.example/a''\<rparr>
          (fresh_world\<lparr>faults := [False, False, False, False, True]\<rparr>)))
       = [7 \<mapsto> [(''16'', ''icons/icon-on-16.png''), (''32'', ''icons/icon-on-32.png'')]]
   \<and> mailbox (snd (onClicked URL_reference \<lparr>tab_id = 7, tab_url = Some ''https://news.example/a''\<rparr>
          (fresh_world\<lparr>faults := [False, False, False, False, True]\<rparr>))) 7 = []"
proof -
  let ?tab = "\<lparr>tab_id = 7, tab_url = Some ''https://news.example/a''\<rparr>"
  let ?w = "fresh_world\<lparr>faults := [False, False, False, False, True]\<rparr>"
  have url: "tab_url ?tab = Some ''https://news.example/a''" by simp
  have dom: "fst (getDomainFromUrl URL_reference ''https://news.example/a'' ?w) = Some ''news.example''"
    by (simp add: getDomainFromUrl_reference_news)
  have fl: "take 5 (faults ?w) = [False, False, False, False, True]" by simp
  have cur: "fst (getDomainState ''news.example'' ?w) = Fulfilled (JBool False)"
    by (simp add: getDomainState_def try_catch_def await_def storage_local_get_def take_fault_def
        fresh_world_def allDomains_of_def js_get_def Object_prototype_keys_def Let_def)
  have st: "storage ?w = Map.empty" "icons ?w = Map.empty" "mailbox ?w = (\<lambda>_. [])"
    by (simp_all add: fresh_world_def)
  from delivery_failure_keeps_state[OF url dom _ fl cur] fl
  show ?thesis
    by (simp add: st allDomains_of_def SETTINGS_KEY_def icon_path_def js_put_def)
qed

text \<open>
  C10. When the URL of the tab parses and its hostname is empty, as for
  \<^verbatim>\<open>about:blank\<close>, \<open>getDomainFromUrl\<close> returns the empty string, not \<^verbatim>\<open>null\<close>, and the
  click handler returns at its guard: the world is left exactly as it was, so there is
  no store mutation, no icon update and no notification.
\<close>

theorem empty_hostname_click_is_noop:
  assumes "tab_url tab = Some url" and "URL_new url = Some u" and "hostname u = []"
  shows "getDomainFromUrl URL_new url w = (Some [], w)
    \<and> onClicked URL_new tab w = (Fulfilled (), w)"
proof -
  have g: "getDomainFromUrl URL_new url w = (Some [], w)"
    using assms(2,3) by (simp add: getDomainFromUrl_def)
  then show ?thesis
    by (simp add: onClicked_def assms(1) url_string_def)
qed

theorem empty_hostname_click_is_noop_witness:
  "URL_reference ''about:blank'' = Some \<lparr>hostname = []\<rparr>
   \<and> getDomainFromUrl URL_reference ''about:blank'' fresh_world = (Some [], fresh_world)
   \<and> onClicked URL_reference \<lparr>tab_id = 7, tab_url = Some ''about:blank''\<rparr> fresh_world
       = (Fulfilled (), fresh_world)"
proof -
  have t: "tab_url \<lparr>tab_id = 7, tab_url = Some ''about:blank''\<rparr> = Some ''about:blank''" by simp
  have p: "URL_reference ''about:blank'' = Some \<lparr>hostname = []\<rparr>"
    by (simp add: URL_reference_def url_std_about_blank)
  have h: "hostname \<lparr>hostname = []\<rparr> = []" by simp
  from empty_hostname_click_is_noop
      [where tab = "\<lparr>tab_id = 7, tab_url = Some ''about:blank''\<rparr>" and url = "''about:blank''"
         and URL_new = URL_reference and u = "\<lparr>hostname = []\<rparr>" and w = fresh_world]
    t p h
  show ?thesis by simp
qed

subsection \<open>The domain resolver\<close>

text \<open>
  C6. \<open>getDomainFromUrl\<close> returns \<^verbatim>\<open>null\<close> exactly when the URL constructor throws, as
  it does on \<^verbatim>\<open>not a url\<close>, and the parsed hostname otherwise, which for a URL without
  a host such as \<^verbatim>\<open>about:blank\<close> is the empty string and not \<^verbatim>\<open>null\<close>. On a click with
  the URL \<^verbatim>\<open>not a url\<close> the handler changes neither the store nor any icon, posts no
  message and makes no browser call.
\<close>

theorem resolve_null_when_parser_throws:
  assumes "conforms URL_new" and "tab_url tab = Some ''not a url''"
  shows "fst (getDomainFromUrl URL_new url w) = map_option hostname (URL_new url)
    \<and> fst (getDomainFromUrl URL_new ''not a url'' w) = None
    \<and> fst (getDomainFromUrl URL_new ''about:blank'' w) = Some []
    \<and> storage (snd (onClicked URL_new tab w)) = storage w
    \<and> icons (snd (onClicked URL_new tab w)) = icons w
    \<and> mailbox (snd (onClicked URL_new tab w)) = mailbox w
    \<and> calls (snd (onClicked URL_new tab w)) = calls w"
proof -
  have throws: "URL_new ''not a url'' = None"
    using assms(1) url_std_not_a_url by (rule conforms_Throws)
  have blank: "URL_new ''about:blank'' = Some \<lparr>hostname = []\<rparr>"
    using assms(1) url_std_about_blank by (rule conforms_Parsed)
  have general: "fst (getDomainFromUrl URL_new url w) = map_option hostname (URL_new url)"
    by (cases "URL_new url") (simp_all add: getDomainFromUrl_def)
  have none: "getDomainFromUrl URL_new ''not a url'' w =
      (None, console_error ''ToothLit: Invalid URL - not a url'' w)"
    by (simp add: getDomainFromUrl_def throws)
  have run: "onClicked URL_new tab w = (Fulfilled (), console_error ''ToothLit: Invalid URL - not a url'' w)"
    by (simp add: onClicked_def assms(2) url_string_def none)
  have empty: "fst (getDomainFromUrl URL_new ''about:blank'' w) = Some []"
    by (simp add: getDomainFromUrl_def blank)
  show ?thesis
    unfolding run by (simp add: general none empty console_error_def)
qed

theorem resolve_null_when_parser_throws_witness:
  "conforms URL_reference
   \<and> URL_reference ''not a url'' = None
   \<and> fst (getDomainFromUrl URL_reference ''not a url'' fresh_world) = None
   \<and> fst (getDomainFromUrl URL_reference ''about:blank'' fresh_world) = Some []
   \<and> storage (snd (onClicked URL_reference \<lparr>tab_id = 7, tab_url = Some ''not a url''\<rparr> fresh_world))
       = storage fresh_world
   \<and> icons (snd (onClicked URL_reference \<lparr>tab_id = 7, tab_url = Some ''not a url''\<rparr> fresh_world))
       = icons fresh_world
   \<and> calls (snd (onClicked URL_reference \<lparr>tab_id = 7, tab_url = Some ''not a url''\<rparr> fresh_world))
       = calls fresh_world"
proof -
  have t: "tab_url \<lparr>tab_id = 7, tab_url = Some ''not a url''\<rparr> = Some ''not a url''" by simp
  have n: "URL_reference ''not a url'' = None" by (simp add: URL_reference_def url_std_not_a_url)
  from resolve_null_when_parser_throws[OF URL_reference_conforms t, of "''not a url''" fresh_world]
    URL_reference_conforms n
  show ?thesis by simp
qed

theorem resolve_about_blank_is_empty_string:
  "fst (getDomainFromUrl URL_reference ''about:blank'' fresh_world) = Some []"
  by (simp add: getDomainFromUrl_reference_about_blank)



























subsection \<open>The page styler\<close>

lemma find_None_filter: "find P xs = None \<longleftrightarrow> filter P xs = []"
  by (induction xs) auto

lemma getElementById_None_iff:
  "getElementById p FALLBACK_STYLE_ID = None \<longleftrightarrow> reserved_elements p = []"
  by (simp add: getElementById_def reserved_elements_def find_None_filter)

lemma filter_remove_first: "filter P (remove_first P xs) = drop 1 (filter P xs)"
  by (induction xs) auto

lemma elem_id_fallback_link [simp]: "elem_id (fallback_link p) = FALLBACK_STYLE_ID"
  by (simp add: fallback_link_def)

lemma fallback_link_root_style [simp]: "fallback_link (p\<lparr>root_style := s\<rparr>) = fallback_link p"
  by (simp add: fallback_link_def runtime_getURL_def)

lemma reserved_elements_root_style [simp]:
  "reserved_elements (p\<lparr>root_style := s\<rparr>) = reserved_elements p"
  by (simp add: reserved_elements_def)

lemma enableDarkMode_fresh:
  assumes "reserved_elements p = []"
  shows "enableDarkMode p =
    p\<lparr>root_style := (root_style p)(''color-scheme'' \<mapsto> (''dark'', ''important'')),
      head_children := head_children p @ [fallback_link p]\<rparr>"
  using assms by (simp add: enableDarkMode_def Let_def getElementById_None_iff)

lemma enableDarkMode_present:
  assumes "reserved_elements p \<noteq> []"
  shows "enableDarkMode p =
    p\<lparr>root_style := (root_style p)(''color-scheme'' \<mapsto> (''dark'', ''important''))\<rparr>"
  using assms by (simp add: enableDarkMode_def Let_def getElementById_None_iff)

lemma reserved_elements_enable:
  "reserved_elements (enableDarkMode p) =
     (if reserved_elements p = [] then [fallback_link p] else reserved_elements p)"
proof (cases "reserved_elements p = []")
  case True
  then show ?thesis
    by (simp add: enableDarkMode_fresh) (simp add: reserved_elements_def)
next
  case False
  then show ?thesis by (simp add: enableDarkMode_present)
qed

lemma root_style_enable:
  "root_style (enableDarkMode p) ''color-scheme'' = Some (''dark'', ''important'')"
  by (cases "reserved_elements p = []") (simp_all add: enableDarkMode_fresh enableDarkMode_present)

lemma enableDarkMode_idem: "enableDarkMode (enableDarkMode p) = enableDarkMode p"
proof -
  have "reserved_elements (enableDarkMode p) \<noteq> []"
    by (simp add: reserved_elements_enable)
  then have "enableDarkMode (enableDarkMode p) =
      (enableDarkMode p)\<lparr>root_style :=
        (root_style (enableDarkMode p))(''color-scheme'' \<mapsto> (''dark'', ''important''))\<rparr>"
    by (rule enableDarkMode_present)
  also have "(root_style (enableDarkMode p))(''color-scheme'' \<mapsto> (''dark'', ''important''))
      = root_style (enableDarkMode p)"
    using root_style_enable[of p] by (simp add: map_upd_triv)
  finally show ?thesis by simp
qed

lemma root_style_disable: "root_style (disableDarkMode p) ''color-scheme'' = None"
  by (simp add: disableDarkMode_def Let_def split: option.splits)

lemma reserved_elements_disable:
  "reserved_elements (disableDarkMode p) = drop 1 (reserved_elements p)"
proof (cases "reserved_elements p = []")
  case True
  then show ?thesis
    by (simp add: disableDarkMode_def Let_def getElementById_None_iff[THEN iffD2])
next
  case False
  define P where "P = (\<lambda>e::element. elem_id e = FALLBACK_STYLE_ID)"
  from False obtain e where found: "getElementById p FALLBACK_STYLE_ID = Some e"
    using getElementById_None_iff[of p] by auto
  have found': "getElementById (p\<lparr>root_style := (root_style p)(''color-scheme'' := None)\<rparr>)
      FALLBACK_STYLE_ID = Some e"
    using found by (simp add: getElementById_def)
  show ?thesis
  proof (cases "find P (head_children p) = None")
    case True
    then have "filter P (head_children p) = []" by (simp add: find_None_filter)
    then show ?thesis
      using True found'
      by (simp add: disableDarkMode_def Let_def P_def[symmetric] reserved_elements_def
          filter_remove_first)
  next
    case False
    then have "filter P (head_children p) \<noteq> []" by (simp add: find_None_filter)
    then have "Suc 0 - length (filter P (head_children p)) = 0"
      by (cases "filter P (head_children p)") simp_all
    then show ?thesis
      using False found'
      by (simp add: disableDarkMode_def Let_def P_def[symmetric] reserved_elements_def
          filter_remove_first)
  qed
qed

lemma disableDarkMode_light:
  assumes "is_light p"
  shows "disableDarkMode p = p"
proof -
  from assms have none: "root_style p ''color-scheme'' = None" and "reserved_elements p = []"
    by (simp_all add: is_light_def)
  then have "getElementById (p\<lparr>root_style := (root_style p)(''color-scheme'' := None)\<rparr>)
      FALLBACK_STYLE_ID = None"
    by (simp add: getElementById_None_iff)
  moreover have "(root_style p)(''color-scheme'' := None) = root_style p"
    using none by (simp add: fun_upd_idem)
  ultimately show ?thesis
    by (simp add: disableDarkMode_def Let_def)
qed

text \<open>
  C4. On a page that holds at most one element with the reserved id, two enable
  transitions in a row leave the page dark with exactly one such element and the
  property \<^verbatim>\<open>color-scheme: dark\<close>, the second transition changing nothing; from the
  light state that element is the fallback stylesheet link. The disable transition
  removes the property and one element with the reserved id if there is one, and on a
  light page it changes nothing.
\<close>

theorem enable_twice_one_fallback:
  assumes "length (reserved_elements p) \<le> 1"
  shows "length (reserved_elements (enableDarkMode (enableDarkMode p))) = 1
    \<and> root_style (enableDarkMode (enableDarkMode p)) ''color-scheme'' = Some (''dark'', ''important'')
    \<and> enableDarkMode (enableDarkMode p) = enableDarkMode p
    \<and> root_style (disableDarkMode p) ''color-scheme'' = None
    \<and> reserved_elements (disableDarkMode p) = drop 1 (reserved_elements p)
    \<and> (is_light p \<longrightarrow>
         disableDarkMode p = p
         \<and> reserved_elements (enableDarkMode (enableDarkMode p)) = [fallback_link p])"
proof -
  have one: "length (reserved_elements (enableDarkMode p)) = 1"
  proof (cases "reserved_elements p")
    case Nil
    then show ?thesis by (simp add: reserved_elements_enable)
  next
    case (Cons e es)
    with assms have "es = []" by simp
    with Cons show ?thesis by (simp add: reserved_elements_enable)
  qed
  have light: "reserved_elements (enableDarkMode p) = [fallback_link p]" if "is_light p"
    using that by (simp add: is_light_def reserved_elements_enable)
  show ?thesis
    unfolding enableDarkMode_idem
    using one light
    by (simp add: root_style_enable root_style_disable reserved_elements_disable disableDarkMode_light)
qed

theorem enable_twice_one_fallback_witness:
  "length (reserved_elements (blank_page ''news.example'')) \<le> 1
   \<and> is_light (blank_page ''news.example'')
   \<and> is_dark (enableDarkMode (enableDarkMode (blank_page ''news.example'')))
   \<and> reserved_elements (enableDarkMode (enableDarkMode (blank_page ''news.example'')))
       = [\<lparr>elem_tag = ''link'', elem_id = ''toothlit-dark-mode-fallback-css'',
           elem_rel = ''stylesheet'', elem_type = ''text/css'',
           elem_href = ''safari-web-extension://toothlit/dark-mode.css''\<rparr>]
   \<and> disableDarkMode (blank_page ''news.example'') = blank_page ''news.example''"
proof -
  have none: "reserved_elements (blank_page ''news.example'') = []"
    by (simp add: reserved_elements_def blank_page_def)
  then have le: "length (reserved_elements (blank_page ''news.example'')) \<le> 1" by simp
  have light: "is_light (blank_page ''news.example'')"
    by (simp add: is_light_def none) (simp add: blank_page_def)
  have link: "fallback_link (blank_page ''news.example'') =
      \<lparr>elem_tag = ''link'', elem_id = ''toothlit-dark-mode-fallback-css'',
        elem_rel = ''stylesheet'', elem_type = ''text/css'',
        elem_href = ''safari-web-extension://toothlit/dark-mode.css''\<rparr>"
    by (simp add: fallback_link_def runtime_getURL_def blank_page_def FALLBACK_STYLE_ID_def)
  from enable_twice_one_fallback[OF le] le light
  show ?thesis by (simp add: is_dark_def link enableDarkMode_idem)
qed

text \<open>
  C5. A message event changes the page only if its source is the page's own window and
  its data carries the source marker \<^verbatim>\<open>toothlit-background\<close>.
\<close>

theorem message_changes_page_only_if_checked:
  assumes "on_message event p \<noteq> p"
  shows "ev_source event = OwnWindow
    \<and> (\<exists>act. ev_data event = Data (JStr ''toothlit-background'') act)"
proof (cases "ev_data event")
  case FalsyData
  with assms show ?thesis by (simp add: on_message_def)
next
  case (Data src act)
  with assms show ?thesis
    by (cases "ev_source event = OwnWindow \<and> src = JStr ''toothlit-background''")
      (simp_all add: on_message_def)
qed

theorem message_changes_page_only_if_checked_witness:
  "on_message (injected_message True) (blank_page ''news.example'') \<noteq> blank_page ''news.example''
   \<and> ev_source (injected_message True) = OwnWindow
   \<and> ev_data (injected_message True) = Data (JStr ''toothlit-background'') (JStr ''enableDarkMode'')"
proof -
  have "head_children (on_message (injected_message True) (blank_page ''news.example'')) \<noteq> []"
    by (simp add: on_message_def injected_message_def enableDarkMode_def getElementById_def
        blank_page_def Let_def)
  moreover have "head_children (blank_page ''news.example'') = []" by (simp add: blank_page_def)
  ultimately have changed: "on_message (injected_message True) (blank_page ''news.example'')
      \<noteq> blank_page ''news.example''"
    by metis
  from message_changes_page_only_if_checked[OF changed] changed
  show ?thesis by (simp add: injected_message_def)
qed

lemma message_failing_a_check_is_ignored:
  assumes "ev_source event \<noteq> OwnWindow \<or> (\<forall>act. ev_data event \<noteq> Data (JStr ''toothlit-background'') act)"
  shows "on_message event p = p"
  using assms by (auto simp: on_message_def split: js_data.splits)

text \<open>
  C8. On a store that was never written, the check made when the content script loads
  on a page of the host \<^verbatim>\<open>constructor\<close> turns the light page dark: the read
  \<^verbatim>\<open>allDomains[domain]\<close> finds \<^verbatim>\<open>Object.prototype.constructor\<close>, which is truthy.
\<close>

theorem initial_check_on_constructor_host:
  "storage fresh_world = Map.empty
   \<and> is_light (blank_page ''constructor'')
   \<and> is_dark (fst (initial_check (blank_page ''constructor'') fresh_world))"
proof -
  have none: "reserved_elements (blank_page ''constructor'') = []"
    by (simp add: reserved_elements_def blank_page_def)
  have light: "is_light (blank_page ''constructor'')"
    by (simp add: is_light_def none) (simp add: blank_page_def)
  have "fst (initial_check (blank_page ''constructor'') fresh_world)
      = enableDarkMode (blank_page ''constructor'')"
    by (simp add: initial_check_def storage_local_get_def take_fault_def fresh_world_def
        allDomains_of_def js_get_def Object_prototype_keys_def blank_page_def)
  then have "is_dark (fst (initial_check (blank_page ''constructor'') fresh_world))"
    by (simp add: is_dark_def root_style_enable reserved_elements_enable none)
  with light show ?thesis by (simp add: fresh_world_def)
qed

subsection \<open>Further properties of the preference store and the handlers\<close>

lemma getDomainState_calls:
  "calls (snd (getDomainState d w)) = calls w @ [StorageGet SETTINGS_KEY]"
  "storage (snd (getDomainState d w)) = storage w"
  by (cases "faults w"; cases "hd (faults w)";
      simp add: getDomainState_def try_catch_def await_def storage_local_get_def take_fault_def
        console_error_def Let_def)+

lemma setDomainState_calls:
  "fst (setDomainState d b w) = Fulfilled ()"
  "\<exists>mid. calls (snd (setDomainState d b w)) = calls w @ StorageGet SETTINGS_KEY # mid
      \<and> (mid = [] \<or> mid = [StorageSet [SETTINGS_KEY \<mapsto> js_put (allDomains_of (storage w)) d b]])"
  by (cases "faults w"; cases "hd (faults w)"; cases "tl (faults w)"; cases "hd (tl (faults w))";
      simp add: setDomainState_def try_catch_def await_def storage_local_get_def
        storage_local_set_def take_fault_def console_error_def Let_def)+

lemma updateIcon_calls:
  "fst (updateIcon tabId v w) = Fulfilled ()"
  "calls (snd (updateIcon tabId v w)) = calls w @ [SetIcon tabId (icon_path (truthy v))]"
  by (cases "faults w"; cases "hd (faults w)";
      simp add: updateIcon_def try_catch_def action_setIcon_def take_fault_def console_error_def)+

lemma delivery_calls:
  "fst (try_catch (scripting_executeScript tabId b w)
         (\<lambda>w4. (Fulfilled (), console_error msg w4))) = Fulfilled ()"
  "calls (snd (try_catch (scripting_executeScript tabId b w)
         (\<lambda>w4. (Fulfilled (), console_error msg w4)))) = calls w @ [ExecuteScript tabId b]"
  by (cases "faults w"; cases "hd (faults w)";
      simp add: try_catch_def scripting_executeScript_def take_fault_def console_error_def)+

text \<open>
  Whatever the browser rejects, a click on a tab with a non-empty domain never ends in
  a rejection and never stops midway: it makes the two reads, at most one write (none
  when the second read was rejected), then the icon call and the delivery call.
\<close>

theorem click_always_reaches_delivery:
  assumes url: "tab_url tab = Some url"
    and dom: "fst (getDomainFromUrl URL_new url w) = Some domain"
    and nonempty: "domain \<noteq> []"
    and cur: "fst (getDomainState domain w) = Fulfilled current"
  shows "fst (onClicked URL_new tab w) = Fulfilled ()
    \<and> (\<exists>mid. calls (snd (onClicked URL_new tab w)) =
          calls w @ [StorageGet SETTINGS_KEY, StorageGet SETTINGS_KEY] @ mid @
          [SetIcon (tab_id tab) (icon_path (\<not> truthy current)),
           ExecuteScript (tab_id tab) (\<not> truthy current)]
        \<and> (mid = [] \<or> mid = [StorageSet [SETTINGS_KEY \<mapsto>
              js_put (allDomains_of (storage w)) domain (\<not> truthy current)]]))"
proof -
  from dom have g: "getDomainFromUrl URL_new url w = (Some domain, w)"
    by (auto simp: getDomainFromUrl_def split: option.splits)
  define w1 where "w1 = snd (getDomainState domain w)"
  have s1: "getDomainState domain w = (Fulfilled current, w1)"
    using cur by (simp add: w1_def prod_eq_iff)
  define newState where "newState = (\<not> truthy current)"
  define w2 where "w2 = snd (setDomainState domain newState w1)"
  have s2: "setDomainState domain newState w1 = (Fulfilled (), w2)"
    by (simp add: w2_def prod_eq_iff setDomainState_calls(1))
  define w3 where "w3 = snd (updateIcon (tab_id tab) (JBool newState) w2)"
  have s3: "updateIcon (tab_id tab) (JBool newState) w2 = (Fulfilled (), w3)"
    by (simp add: w3_def prod_eq_iff updateIcon_calls(1))
  have run: "onClicked URL_new tab w =
      try_catch (scripting_executeScript (tab_id tab) newState w3)
        (\<lambda>w4. (Fulfilled (), console_error ''ToothLit: Could not communicate with content script'' w4))"
    using nonempty
    by (simp add: onClicked_def url url_string_def g await_def s1 s2 s3 newState_def[symmetric])
  have c1: "calls w1 = calls w @ [StorageGet SETTINGS_KEY]" and st1: "storage w1 = storage w"
    by (simp_all add: w1_def getDomainState_calls)
  from setDomainState_calls(2)[of domain newState w1]
  obtain mid where c2: "calls w2 = calls w1 @ StorageGet SETTINGS_KEY # mid"
    and mid: "mid = [] \<or> mid = [StorageSet [SETTINGS_KEY \<mapsto>
        js_put (allDomains_of (storage w)) domain newState]]"
    unfolding w2_def st1 by blast
  have c3: "calls w3 = calls w2 @ [SetIcon (tab_id tab) (icon_path newState)]"
    by (simp add: w3_def updateIcon_calls(2))
  have "calls (snd (onClicked URL_new tab w)) =
      calls w @ [StorageGet SETTINGS_KEY, StorageGet SETTINGS_KEY] @ mid @
      [SetIcon (tab_id tab) (icon_path newState), ExecuteScript (tab_id tab) newState]"
    unfolding run by (simp add: delivery_calls(2) c3 c2 c1)
  moreover have "fst (onClicked URL_new tab w) = Fulfilled ()"
    unfolding run by (rule delivery_calls(1))
  ultimately show ?thesis
    using mid unfolding newState_def by blast
qed

theorem click_always_reaches_delivery_witness:
  "fst (onClicked URL_reference \<lparr>tab_id = 7, tab_url = Some ''https://news.example/a''\<rparr>
         (fresh_world\<lparr>faults := [True, True, True, True]\<rparr>)) = Fulfilled ()
   \<and> (\<exists>mid. calls (snd (onClicked URL_reference \<lparr>tab_id = 7, tab_url = Some ''https://news.example/a''\<rparr>
         (fresh_world\<lparr>faults := [True, True, True, True]\<rparr>))) =
          calls (fresh_world\<lparr>faults := [True, True, True, True]\<rparr>)
          @ [StorageGet SETTINGS_KEY, StorageGet SETTINGS_KEY] @ mid @
          [SetIcon 7 (icon_path True), ExecuteScript 7 True])"
proof -
  let ?tab = "\<lparr>tab_id = 7, tab_url = Some ''https://news.example/a''\<rparr>"
  let ?w = "fresh_world\<lparr>faults := [True, True, True, True]\<rparr>"
  have url: "tab_url ?tab = Some ''https://news.example/a''" by simp
  have dom: "fst (getDomainFromUrl URL_reference ''https://news.example/a'' ?w) = Some ''news.example''"
    by (simp add: getDomainFromUrl_reference_news)
  have ne: "''news.example'' \<noteq> []" by simp
  have cur: "fst (getDomainState ''news.example'' ?w) = Fulfilled (JBool False)"
    by (simp add: getDomainState_read_fails)
  from click_always_reaches_delivery[OF url dom ne cur]
  show ?thesis by auto
qed

text \<open>
  \<open>getDomainState\<close> never ends in a rejection; when the storage read is rejected it
  returns \<^verbatim>\<open>false\<close> and leaves a line on the console. For a domain that has no entry in
  the stored settings and is not the name of a member of \<^verbatim>\<open>Object.prototype\<close> it returns
  \<^verbatim>\<open>false\<close>, whether the read is rejected or not.
\<close>

theorem get_swallows_read_failure:
  assumes "faults w = True # fs"
  shows "getDomainState d w =
    (Fulfilled (JBool False),
     w\<lparr>console := console w @ [''ToothLit: Error getting domain state''],
       calls := calls w @ [StorageGet SETTINGS_KEY], faults := fs\<rparr>)"
  using assms
  by (simp add: getDomainState_def try_catch_def await_def storage_local_get_def take_fault_def
      console_error_def)

theorem get_swallows_read_failure_witness:
  "faults (fresh_world\<lparr>faults := [True]\<rparr>) = [True]
   \<and> fst (getDomainState ''news.example'' (fresh_world\<lparr>faults := [True]\<rparr>)) = Fulfilled (JBool False)
   \<and> console (snd (getDomainState ''news.example'' (fresh_world\<lparr>faults := [True]\<rparr>)))
       = [''ToothLit: Error getting domain state'']"
proof -
  have f: "faults (fresh_world\<lparr>faults := [True]\<rparr>) = [True]" by simp
  from get_swallows_read_failure[OF f, of "''news.example''"] f
  show ?thesis by (simp add: fresh_world_def)
qed

theorem get_absent_plain_domain:
  assumes "allDomains_of (storage w) d = None" and "d \<notin> set Object_prototype_keys"
  shows "fst (getDomainState d w) = Fulfilled (JBool False)"
proof (cases "faults w")
  case Nil
  then have "True \<notin> set (take (Suc 0) (faults w))" by simp
  from getDomainState_ok[OF this] assms show ?thesis by (simp add: js_get_def)
next
  case (Cons f fs)
  show ?thesis
  proof (cases f)
    case True
    with Cons show ?thesis by (simp add: getDomainState_read_fails)
  next
    case False
    with Cons have "True \<notin> set (take (Suc 0) (faults w))" by simp
    from getDomainState_ok[OF this] assms show ?thesis by (simp add: js_get_def)
  qed
qed

theorem get_absent_plain_domain_witness:
  "allDomains_of (storage fresh_world) ''news.example'' = None
   \<and> ''news.example'' \<notin> set Object_prototype_keys
   \<and> fst (getDomainState ''news.example'' fresh_world) = Fulfilled (JBool False)"
proof -
  have a: "allDomains_of (storage fresh_world) ''news.example'' = None"
    by (simp add: allDomains_of_def fresh_world_def)
  have b: "''news.example'' \<notin> set Object_prototype_keys"
    by (simp add: Object_prototype_keys_def)
  from get_absent_plain_domain[OF a b] a b show ?thesis by simp
qed

text \<open>
  Round trip of the preference store: after \<open>setDomainState D b\<close>, \<open>getDomainState D\<close>
  returns \<open>b\<close>, for every domain other than \<^verbatim>\<open>__proto__\<close> when none of the three storage
  calls involved is rejected. A rejected write is logged and leaves the stored value as
  it was.
\<close>

theorem set_then_get_round_trip:
  assumes "True \<notin> set (take 3 (faults w))" and "D \<noteq> ''__proto__''"
  shows "fst (getDomainState D (snd (setDomainState D b w))) = Fulfilled (JBool b)"
proof -
  define w2 where "w2 = snd (setDomainState D b w)"
  from assms(1) have a: "True \<notin> set (take (Suc (Suc (Suc 0))) (faults w))"
    by (simp add: eval_nat_numeral)
  have st: "storage w2 = (storage w)(SETTINGS_KEY \<mapsto> js_put (allDomains_of (storage w)) D b)"
    and fl: "faults w2 = tl (tl (faults w))"
    by (simp_all add: w2_def setDomainState_ok[OF a])
  have c: "True \<notin> set (take (Suc 0) (faults w2))"
    unfolding fl using take_tl[OF take_tl[OF a]] .
  have "js_get (allDomains_of (storage w2)) D = JBool b"
    using assms(2) by (simp add: st allDomains_of_def js_put_def js_get_def)
  then show ?thesis
    unfolding w2_def[symmetric] by (simp add: getDomainState_ok[OF c])
qed

theorem set_then_get_round_trip_witness:
  "True \<notin> set (take 3 (faults fresh_world))
   \<and> fst (getDomainState ''news.example'' (snd (setDomainState ''news.example'' True fresh_world)))
       = Fulfilled (JBool True)
   \<and> fst (getDomainState ''news.example'' (snd (setDomainState ''news.example'' False fresh_world)))
       = Fulfilled (JBool False)"
proof -
  have ok: "True \<notin> set (take 3 (faults fresh_world))" by (simp add: fresh_world_def)
  have ne: "''news.example'' \<noteq> ''__proto__''" by simp
  from set_then_get_round_trip[OF ok ne, of True] set_then_get_round_trip[OF ok ne, of False] ok
  show ?thesis by simp
qed

lemma set_then_get_after_rejected_write:
  "fst (getDomainState ''news.example''
          (snd (setDomainState ''news.example'' True (fresh_world\<lparr>faults := [False, True]\<rparr>))))
   = Fulfilled (JBool False)"
  by (simp add: getDomainState_def setDomainState_def try_catch_def await_def storage_local_get_def
      storage_local_set_def take_fault_def console_error_def fresh_world_def allDomains_of_def
      js_get_def js_put_def Object_prototype_keys_def SETTINGS_KEY_def Let_def)

text \<open>
  When a tab has finished loading a URL with a non-empty domain and the read and the
  icon call are not rejected, the icon of the tab is the one of the stored state.
\<close>

theorem tab_update_refreshes_icon:
  assumes url: "tab_url tab = Some url" and "url \<noteq> []"
    and dom: "fst (getDomainFromUrl URL_new url w) = Some domain"
    and nonempty: "domain \<noteq> []"
    and ok: "True \<notin> set (take 2 (faults w))"
    and cur: "fst (getDomainState domain w) = Fulfilled current"
  shows "fst (onUpdated URL_new tabId ''complete'' tab w) = Fulfilled ()
    \<and> icons (snd (onUpdated URL_new tabId ''complete'' tab w)) =
        (icons w)(tabId \<mapsto> icon_path (truthy current))
    \<and> storage (snd (onUpdated URL_new tabId ''complete'' tab w)) = storage w"
proof -
  from dom have g: "getDomainFromUrl URL_new url w = (Some domain, w)"
    by (auto simp: getDomainFromUrl_def split: option.splits)
  from ok have f1: "True \<notin> set (take (Suc (Suc 0)) (faults w))"
    by (simp add: eval_nat_numeral)
  define w1 where "w1 = w\<lparr>calls := calls w @ [StorageGet SETTINGS_KEY], faults := tl (faults w)\<rparr>"
  have s1: "getDomainState domain w = (Fulfilled current, w1)"
    using cur getDomainState_ok[OF f1, of domain] by (simp add: w1_def)
  have f2: "True \<notin> set (take (Suc 0) (faults w1))"
    using take_tl[OF f1] by (simp add: w1_def)
  have "onUpdated URL_new tabId ''complete'' tab w = updateIcon tabId current w1"
    using nonempty assms(2) by (simp add: onUpdated_def url url_string_def g await_def s1)
  then have "onUpdated URL_new tabId ''complete'' tab w =
      (Fulfilled (), w1\<lparr>calls := calls w1 @ [SetIcon tabId (icon_path (truthy current))],
         faults := tl (faults w1), icons := (icons w1)(tabId \<mapsto> icon_path (truthy current))\<rparr>)"
    by (simp only: updateIcon_ok[OF f2])
  then show ?thesis
    by (simp add: w1_def)
qed

theorem tab_update_refreshes_icon_witness:
  "fst (getDomainState ''news.example'' fresh_world) = Fulfilled (JBool False)
   \<and> icons (snd (onUpdated URL_reference 7 ''complete''
        \<lparr>tab_id = 7, tab_url = Some ''https://news.example/a''\<rparr> fresh_world)) 7
       = Some [(''16'', ''icons/icon-off-16.png''), (''32'', ''icons/icon-off-32.png'')]"
proof -
  let ?tab = "\<lparr>tab_id = 7, tab_url = Some ''https://news.example/a''\<rparr>"
  have url: "tab_url ?tab = Some ''https://news.example/a''" by simp
  have ne: "''https://news.example/a'' \<noteq> []" by simp
  have dom: "fst (getDomainFromUrl URL_reference ''https://news.example/a'' fresh_world) = Some ''news.example''"
    by (simp add: getDomainFromUrl_reference_news)
  have ok: "True \<notin> set (take 2 (faults fresh_world))" by (simp add: fresh_world_def)
  have cur: "fst (getDomainState ''news.example'' fresh_world) = Fulfilled (JBool False)"
    by (rule getDomainState_fresh) (simp add: Object_prototype_keys_def)
  from tab_update_refreshes_icon[OF url ne dom _ ok cur, of 7] cur
  show ?thesis by (simp add: icon_path_def)
qed

text \<open>
  The check made when the content script loads, for a host name that is not the name
  of a member of \<^verbatim>\<open>Object.prototype\<close>: the page is made dark exactly when the stored
  state of the host is \<^verbatim>\<open>true\<close>; a rejected read leaves the page as it is, but for a line
  on its console.
\<close>

theorem initial_check_follows_store:
  assumes "location_hostname p \<notin> set Object_prototype_keys"
  shows "fst (initial_check p w) =
    (if faults w \<noteq> [] \<and> hd (faults w)
     then p\<lparr>page_console := page_console p @ [''ToothLit: Could not read storage.'']\<rparr>
     else if allDomains_of (storage w) (location_hostname p) = Some True
     then enableDarkMode p else p)"
proof (cases "faults w \<noteq> [] \<and> hd (faults w)")
  case True
  then obtain fs where "faults w = True # fs" by (cases "faults w") auto
  then show ?thesis
    by (simp add: initial_check_def storage_local_get_def take_fault_def)
next
  case False
  then have ok: "True \<notin> set (take (Suc 0) (faults w))" by (cases "faults w") auto
  show ?thesis
    using False assms
    by (cases "allDomains_of (storage w) (location_hostname p)")
       (auto simp: initial_check_def storage_local_get_ok[OF ok] js_get_def)
qed

theorem initial_check_follows_store_witness:
  "location_hostname (blank_page ''news.example'') \<notin> set Object_prototype_keys
   \<and> fst (initial_check (blank_page ''news.example'')
        (fresh_world\<lparr>storage := [''toothlit_settings'' \<mapsto> [''news.example'' \<mapsto> True]]\<rparr>))
       = enableDarkMode (blank_page ''news.example'')
   \<and> fst (initial_check (blank_page ''news.example'') fresh_world) = blank_page ''news.example''"
proof -
  have a: "location_hostname (blank_page ''news.example'') \<notin> set Object_prototype_keys"
    by (simp add: blank_page_def Object_prototype_keys_def)
  have h: "location_hostname (blank_page ''news.example'') = ''news.example''"
    by (simp add: blank_page_def)
  from initial_check_follows_store[OF a, of fresh_world]
    initial_check_follows_store[OF a,
      of "fresh_world\<lparr>storage := [''toothlit_settings'' \<mapsto> [''news.example'' \<mapsto> True]]\<rparr>"] a
  show ?thesis
    by (simp add: h) (simp add: fresh_world_def allDomains_of_def SETTINGS_KEY_def)
qed

text \<open>
  The scenario of the specification: on an empty store, the first click stores \<^verbatim>\<open>true\<close>
  for \<^verbatim>\<open>news.example\<close>, sets the icon of the on state and posts the enable message, and
  the page that handles it becomes dark; a page loaded afterwards is dark after its
  initial check; the second click stores \<^verbatim>\<open>false\<close>, sets the icon of the off state and
  posts the disable message, and the page that handled both messages is light again.
\<close>

theorem toggle_scenario:
  "storage first_click = [''toothlit_settings'' \<mapsto> [''news.example'' \<mapsto> True]]
   \<and> icons first_click 7 = Some (icon_path True)
   \<and> mailbox first_click 7 = [injected_message True]
   \<and> is_dark (deliver_all (mailbox first_click 7) (blank_page ''news.example''))
   \<and> is_dark (fst (initial_check (blank_page ''news.example'') first_click))
   \<and> storage second_click = [''toothlit_settings'' \<mapsto> [''news.example'' \<mapsto> False]]
   \<and> icons second_click 7 = Some (icon_path False)
   \<and> mailbox second_click 7 = [injected_message True, injected_message False]
   \<and> is_light (deliver_all (mailbox second_click 7) (blank_page ''news.example''))"
proof -
  have url: "tab_url news_tab = Some ''https://news.example/a''" by (simp add: news_tab_def)
  have id: "tab_id news_tab = 7" by (simp add: news_tab_def)
  have dom: "fst (getDomainFromUrl URL_reference ''https://news.example/a'' w) = Some ''news.example''" for w
    by (simp add: getDomainFromUrl_reference_news)
  have ne: "''news.example'' \<noteq> []" by simp
  have ok0: "True \<notin> set (take 4 (faults fresh_world))" by (simp add: fresh_world_def)
  have cur0: "fst (getDomainState ''news.example'' fresh_world) = Fulfilled (JBool False)"
    by (rule getDomainState_fresh) (simp add: Object_prototype_keys_def)
  obtain w3 where run: "onClicked URL_reference news_tab fresh_world =
       try_catch (scripting_executeScript 7 True w3)
         (\<lambda>w4. (Fulfilled (), console_error ''ToothLit: Could not communicate with content script'' w4))"
    and w3: "storage w3 = [''toothlit_settings'' \<mapsto> [''news.example'' \<mapsto> True]]"
      "icons w3 = [7 \<mapsto> icon_path True]" "faults w3 = []" "mailbox w3 = (\<lambda>_. [])"
    by (rule click_until_delivery[OF url dom ne ok0 cur0])
       (simp add: id fresh_world_def allDomains_of_def SETTINGS_KEY_def js_put_def)
  have f3: "True \<notin> set (take (Suc 0) (faults w3))" by (simp add: w3)
  have first: "storage first_click = [''toothlit_settings'' \<mapsto> [''news.example'' \<mapsto> True]]"
      "icons first_click 7 = Some (icon_path True)"
      "mailbox first_click 7 = [injected_message True]"
      "faults first_click = []"
    unfolding first_click_def run
    by (simp_all add: try_catch_def scripting_executeScript_ok[OF f3] w3)
  have dark1: "is_dark (deliver_all (mailbox first_click 7) (blank_page ''news.example''))"
    unfolding first(3)
    by (simp add: deliver_all_def on_message_def injected_message_def is_dark_def
        root_style_enable reserved_elements_enable)
      (simp add: reserved_elements_def blank_page_def)
  have reload: "is_dark (fst (initial_check (blank_page ''news.example'') first_click))"
  proof -
    have "True \<notin> set (take (Suc 0) (faults first_click))" by (simp add: first)
    then have "fst (initial_check (blank_page ''news.example'') first_click)
        = enableDarkMode (blank_page ''news.example'')"
      by (simp add: initial_check_def storage_local_get_ok first allDomains_of_def
          SETTINGS_KEY_def js_get_def blank_page_def)
    then show ?thesis
      by (simp add: is_dark_def root_style_enable reserved_elements_enable)
        (simp add: reserved_elements_def blank_page_def)
  qed
  have ok1: "True \<notin> set (take 4 (faults first_click))" by (simp add: first)
  have cur1: "fst (getDomainState ''news.example'' first_click) = Fulfilled (JBool True)"
  proof -
    have "True \<notin> set (take (Suc 0) (faults first_click))" by (simp add: first)
    from getDomainState_ok[OF this, of "''news.example''"] show ?thesis
      by (simp add: first allDomains_of_def SETTINGS_KEY_def js_get_def)
  qed
  obtain v3 where run2: "onClicked URL_reference news_tab first_click =
       try_catch (scripting_executeScript 7 False v3)
         (\<lambda>w4. (Fulfilled (), console_error ''ToothLit: Could not communicate with content script'' w4))"
    and v3: "storage v3 = [''toothlit_settings'' \<mapsto> [''news.example'' \<mapsto> False]]"
      "icons v3 7 = Some (icon_path False)" "faults v3 = []"
      "mailbox v3 = mailbox first_click"
    by (rule click_until_delivery[OF url dom ne ok1 cur1])
       (simp add: id first allDomains_of_def SETTINGS_KEY_def js_put_def)
  have g3: "True \<notin> set (take (Suc 0) (faults v3))" by (simp add: v3)
  have second: "storage second_click = [''toothlit_settings'' \<mapsto> [''news.example'' \<mapsto> False]]"
      "icons second_click 7 = Some (icon_path False)"
      "mailbox second_click 7 = [injected_message True, injected_message False]"
    unfolding second_click_def run2
    by (simp_all add: try_catch_def scripting_executeScript_ok[OF g3] v3 first)
  have none: "reserved_elements (blank_page ''news.example'') = []"
    by (simp add: reserved_elements_def blank_page_def)
  have "deliver_all (mailbox second_click 7) (blank_page ''news.example'')
      = disableDarkMode (enableDarkMode (blank_page ''news.example''))"
    unfolding second(3) by (simp add: deliver_all_def on_message_def injected_message_def)
  then have light2: "is_light (deliver_all (mailbox second_click 7) (blank_page ''news.example''))"
    by (simp add: is_light_def root_style_disable reserved_elements_disable
        reserved_elements_enable none)
  from first(1-3) dark1 reload second light2 show ?thesis by simp
qed

end